theory Spec2Isabelle
  imports Complex_Main
begin

section \<open>Madison IoT import script: data model\<close>

text \<open>
  The script \<^verbatim>\<open>docker/db/import_data.py\<close> reads a workbook with one sheet per sensor and
  loads the rows into three reading tables. The embedding below follows the script
  function by function. Everything the script does besides returning a value (database
  calls, prints, exceptions, \<^verbatim>\<open>sys.exit\<close>) is explicit: functions take the world and
  return the new one together with either the raised exception or the value returned.
\<close>

subsection \<open>Cells, columns and rows of a sheet\<close>

text \<open>
  The headers the script reads, in the order of their first use. The header strings are
  \<^verbatim>\<open>Fecha (Europe/Madrid)\<close>, \<^verbatim>\<open>Bateria (mV)\<close>, \<^verbatim>\<open>Pinza amperimetrica 1..4 (A)\<close>,
  \<^verbatim>\<open>Humedad relativa (%)\<close>, \<^verbatim>\<open>Luz (lux)\<close>, \<^verbatim>\<open>Movimiento\<close>, \<^verbatim>\<open>Ruido [Media] (dB)\<close>,
  \<^verbatim>\<open>Ruido [Pico Max] (dB)\<close>, \<^verbatim>\<open>Temperatura (C)\<close> and \<^verbatim>\<open>Tension bateria (mV)\<close>
  (accents left out here).
\<close>

datatype column =
    Fecha
  | Bateria_mV
  | Pinza_1_A | Pinza_2_A | Pinza_3_A | Pinza_4_A
  | Humedad_relativa
  | Luz_lux
  | Movimiento
  | Ruido_media_dB
  | Ruido_pico_max_dB
  | Temperatura_C
  | Tension_bateria_mV

text \<open>
  What a cell of the data frame holds. A missing cell is \<open>NaN\<close> (or \<open>NaT\<close> in a column
  of dates); any other cell carries a value: a finite number, a text, or a date.
\<close>

datatype pyvalue = Number real | Text string | Datetime nat

datatype cell = NaN | NaT | Val pyvalue

type_synonym dfrow = "column \<rightharpoonup> cell"

type_synonym dataframe = "dfrow list"

text \<open>A parsed timestamp: pandas returns a \<open>Timestamp\<close> or its not-a-time value.\<close>

datatype pdtime = Not_a_time | Timestamp nat

datatype table = Sensors | Current_readings | Environmental_readings | Temperature_readings

text \<open>
  The exceptions that can arise. \<open>Sensor_not_found\<close> is the \<^verbatim>\<open>ValueError\<close> raised by
  \<open>get_sensor_id\<close>; \<open>ValueError\<close> and \<open>TypeError\<close> are the ones of the builtin casts;
  \<open>Parse_error\<close> stands for whatever \<^verbatim>\<open>pd.to_datetime\<close> raises; \<open>Undefined_table\<close> and
  \<open>Empty_query\<close> are raised by the database driver; \<open>Bad_file\<close> stands for whatever
  \<^verbatim>\<open>pd.ExcelFile\<close> raises on a file that is not a workbook.
\<close>

datatype pyerr =
    KeyError column
  | ValueError
  | TypeError
  | Parse_error
  | Sensor_not_found string
  | Undefined_table table
  | Empty_query
  | ZeroDivisionError
  | Bad_file

subsection \<open>Library functions the script calls\<close>

text \<open>
  The pandas parser and Python's reading of a number from a text are not part of the
  script; they are parameters of the model. \<open>to_datetime\<close> is \<^verbatim>\<open>pd.to_datetime\<close> on one
  cell; \<open>float_of_text\<close> and \<open>int_of_text\<close> are \<^verbatim>\<open>float\<close> and \<^verbatim>\<open>int\<close> on a string
  (\<open>None\<close>: the builtin raises \<^verbatim>\<open>ValueError\<close>). Numbers are the finite ones: a text that
  \<^verbatim>\<open>float\<close> reads as an infinity or as not-a-number is outside the model.
\<close>

record pylib =
  to_datetime :: "cell \<Rightarrow> pyerr + pdtime"
  float_of_text :: "string \<Rightarrow> real option"
  int_of_text :: "string \<Rightarrow> int option"


text \<open>A field of a row sent to the database: SQL NULL (Python's None) or a number.\<close>

datatype measurement = FNone | FInt int | FFloat real

text \<open>\<^verbatim>\<open>float(x)\<close> and \<^verbatim>\<open>int(x)\<close> on a cell that holds a value. \<^verbatim>\<open>int\<close> truncates towards zero.\<close>

fun py_float :: "pylib \<Rightarrow> pyvalue \<Rightarrow> pyerr + measurement" where
  "py_float lib (Number x) = Inr (FFloat x)"
| "py_float lib (Text s) =
     (case float_of_text lib s of None \<Rightarrow> Inl ValueError | Some x \<Rightarrow> Inr (FFloat x))"
| "py_float lib (Datetime t) = Inl TypeError"

fun py_int :: "pylib \<Rightarrow> pyvalue \<Rightarrow> pyerr + measurement" where
  "py_int lib (Number x) = Inr (FInt (if 0 \<le> x then \<lfloor>x\<rfloor> else \<lceil>x\<rceil>))"
| "py_int lib (Text s) =
     (case int_of_text lib s of None \<Rightarrow> Inl ValueError | Some i \<Rightarrow> Inr (FInt i))"
| "py_int lib (Datetime t) = Inl TypeError"

subsection \<open>Sensor mapping\<close>

datatype sensor_type = Current | Environmental | Temperature

definition SENSOR_MAPPING :: "string \<rightharpoonup> string \<times> sensor_type" where
  "SENSOR_MAPPING = map_of
     [(''Sensor c1'', (''c1'', Current)),
      (''Sensor s1'', (''s1'', Environmental)),
      (''Sensor s2'', (''s2'', Environmental)),
      (''Sensor s3'', (''s3'', Environmental)),
      (''Sensor s4'', (''s4'', Environmental)),
      (''Sensor s5'', (''s5'', Environmental)),
      (''Sensor t1'', (''t1'', Temperature)),
      (''Sensor t2'', (''t2'', Temperature)),
      (''Sensor t3'', (''t3'', Temperature)),
      (''Sensor t4'', (''t4'', Temperature)),
      (''Sensor t5'', (''t5'', Temperature))]"

subsection \<open>Timestamp parser and row transformers\<close>

text \<open>
  \<open>parse_timestamp\<close> returns Python's None exactly when the pandas parser raises; what
  the parser returns otherwise is handed back as it is (the parser itself returns None
  on None alone, which is not a cell of a data frame read from a workbook). The warning
  it prints is added to the output by its caller below.
\<close>

definition parse_timestamp :: "pylib \<Rightarrow> cell \<Rightarrow> pdtime option" where
  "parse_timestamp lib timestamp_str =
     (case to_datetime lib timestamp_str of Inl e \<Rightarrow> None | Inr t \<Rightarrow> Some t)"

text \<open>\<^verbatim>\<open>row[c]\<close>: a missing column raises \<^verbatim>\<open>KeyError\<close>.\<close>

definition getitem :: "dfrow \<Rightarrow> column \<Rightarrow> pyerr + cell" where
  "getitem row c = (case row c of None \<Rightarrow> Inl (KeyError c) | Some v \<Rightarrow> Inr v)"

datatype numeric = As_float | As_int

definition cast :: "pylib \<Rightarrow> numeric \<Rightarrow> pyvalue \<Rightarrow> pyerr + measurement" where
  "cast lib k v = (case k of As_float \<Rightarrow> py_float lib v | As_int \<Rightarrow> py_int lib v)"

text \<open>
  One element of the tuple a transformer builds:
  \<^verbatim>\<open>float(row[c]) if pd.notna(row[c]) else None\<close>, or the same with \<^verbatim>\<open>int\<close>.
\<close>

definition numeric_field :: "pylib \<Rightarrow> dfrow \<Rightarrow> column \<times> numeric \<Rightarrow> pyerr + measurement" where
  "numeric_field lib row ck =
     (case getitem row (fst ck) of
        Inl e \<Rightarrow> Inl e
      | Inr x \<Rightarrow> (case x of Val v \<Rightarrow> cast lib (snd ck) v | _ \<Rightarrow> Inr FNone))"

text \<open>The elements of a tuple are evaluated from left to right; the first exception wins.\<close>

fun collect :: "(pyerr + 'a) list \<Rightarrow> pyerr + 'a list" where
  "collect [] = Inr []"
| "collect (x # xs) =
     (case x of
        Inl e \<Rightarrow> Inl e
      | Inr v \<Rightarrow> (case collect xs of Inl e \<Rightarrow> Inl e | Inr vs \<Rightarrow> Inr (v # vs)))"

text \<open>The measurement fields of the three tuples, each with the cast the script applies.\<close>

definition current_fields :: "(column \<times> numeric) list" where
  "current_fields =
     [(Bateria_mV, As_float), (Pinza_1_A, As_float), (Pinza_2_A, As_float),
      (Pinza_3_A, As_float), (Pinza_4_A, As_float)]"

definition environmental_fields :: "(column \<times> numeric) list" where
  "environmental_fields =
     [(Humedad_relativa, As_int), (Luz_lux, As_int), (Movimiento, As_int),
      (Ruido_media_dB, As_int), (Ruido_pico_max_dB, As_int), (Temperatura_C, As_float),
      (Tension_bateria_mV, As_int)]"

definition temperature_fields :: "(column \<times> numeric) list" where
  "temperature_fields =
     [(Humedad_relativa, As_int), (Temperatura_C, As_float), (Tension_bateria_mV, As_int)]"

definition transform :: "(column \<times> numeric) list \<Rightarrow> pylib \<Rightarrow> dfrow \<Rightarrow> pyerr + measurement list" where
  "transform cols lib row = collect (map (numeric_field lib row) cols)"

text \<open>A row of a reading table: time, sensor id, measurement fields.\<close>

type_synonym reading = "pdtime \<times> nat \<times> measurement list"

section \<open>The database and the process\<close>

text \<open>
  The calls made on the database driver that returned normally, in order. A call that
  raises is not recorded: the exception is the result of the function that made it.
\<close>

datatype dbcall =
    Connect
  | Select_sensor_id string
  | Execute_batch table "reading list"
  | Commit
  | Rollback
  | Close
  | Select_count table

text \<open>The lines the script prints (separator lines and headings are left out).\<close>

datatype msg =
    Connecting
  | Connection_established
  | Connection_failed
  | Could_not_parse_timestamp cell
  | Importing string string nat
  | Inserted nat nat nat
  | Inserted_final_batch nat
  | Skipped_rows nat
  | Import_completed string
  | File_not_found
  | Reading_file
  | Found_sheets nat
  | Skipping_unknown_sheet string
  | Total_rows_processed nat
  | Duration nat
  | Rows_per_second
  | All_imported
  | Import_failed pyerr
  | Count_line table
  | Total_readings

text \<open>
  The world the script runs in. \<open>reachable\<close>: whether \<^verbatim>\<open>psycopg2.connect\<close> succeeds.
  \<open>present\<close>: which tables the schema has; a statement on a table that is not there
  raises. \<open>registry\<close>: the rows (sensor_code, sensor_id) of \<^verbatim>\<open>iot.sensors\<close>, which the
  script only reads. What the destination tables do with an inserted batch (conflicts
  are ignored there) belongs to the schema, not to the script, so the reading tables are
  represented by the bulk inserts applied to them: \<open>committed\<close> holds the inserts that
  are durable, \<open>uncommitted\<close> those of the open transaction. \<open>open_connections\<close>
  counts the connections opened and not closed.
\<close>

record world =
  reachable :: bool
  present :: "table \<Rightarrow> bool"
  registry :: "(string \<times> nat) list"
  committed :: "(table \<times> reading list) list"
  uncommitted :: "(table \<times> reading list) list"
  open_connections :: nat
  calls :: "dbcall list"
  stdout :: "msg list"

definition print :: "msg \<Rightarrow> world \<Rightarrow> world" where
  "print m w = w\<lparr>stdout := stdout w @ [m]\<rparr>"

definition called :: "dbcall \<Rightarrow> world \<Rightarrow> world" where
  "called c w = w\<lparr>calls := calls w @ [c]\<rparr>"

text \<open>
  \<^verbatim>\<open>connect_db\<close>: the connection, or \<^verbatim>\<open>sys.exit(1)\<close> when connecting raises (the
  result False). A new connection has no open transaction.
\<close>

definition connect_db :: "world \<Rightarrow> bool \<times> world" where
  "connect_db w =
     (let w1 = print Connecting w in
      if reachable w1
      then (True, print Connection_established
                    (called Connect
                       (w1\<lparr>uncommitted := [], open_connections := Suc (open_connections w1)\<rparr>)))
      else (False, print Connection_failed w1))"

text \<open>\<^verbatim>\<open>conn.commit()\<close>, \<^verbatim>\<open>conn.rollback()\<close> and \<^verbatim>\<open>conn.close()\<close>.\<close>

definition commit :: "world \<Rightarrow> world" where
  "commit w = called Commit (w\<lparr>committed := committed w @ uncommitted w, uncommitted := []\<rparr>)"

definition rollback :: "world \<Rightarrow> world" where
  "rollback w = called Rollback (w\<lparr>uncommitted := []\<rparr>)"

definition close :: "world \<Rightarrow> world" where
  "close w = called Close (w\<lparr>uncommitted := [], open_connections := open_connections w - 1\<rparr>)"

text \<open>
  \<^verbatim>\<open>execute_batch(cursor, insert_query, data, page_size=batch_size)\<close>. The driver cuts
  the rows into pages of \<open>page_size\<close> and executes one statement per page; with a page
  size below 1 the page is empty and executing the empty statement raises. Without rows
  (and a page size of at least 1) no statement is sent, so nothing can fail.
\<close>

definition execute_batch :: "table \<Rightarrow> reading list \<Rightarrow> int \<Rightarrow> world \<Rightarrow> (pyerr + unit) \<times> world" where
  "execute_batch t data page_size w =
     (if page_size < 1 then (Inl Empty_query, w)
      else if data \<noteq> [] \<and> \<not> present w t then (Inl (Undefined_table t), w)
      else (Inr (), called (Execute_batch t data) (w\<lparr>uncommitted := uncommitted w @ [(t, data)]\<rparr>)))"

text \<open>\<^verbatim>\<open>get_sensor_id\<close>: the id of the first registry row with that code.\<close>

definition get_sensor_id :: "string \<Rightarrow> world \<Rightarrow> (pyerr + nat) \<times> world" where
  "get_sensor_id sensor_code w =
     (if \<not> present w Sensors then (Inl (Undefined_table Sensors), w)
      else let w1 = called (Select_sensor_id sensor_code) w in
        case map_of (registry w1) sensor_code of
          Some sensor_id \<Rightarrow> (Inr sensor_id, w1)
        | None \<Rightarrow> (Inl (Sensor_not_found sensor_code), w1))"

section \<open>Importing one sheet\<close>

text \<open>Sequencing: an exception ends the sequence and keeps the world it was raised in.\<close>

definition and_then ::
  "(pyerr + 'a) \<times> world \<Rightarrow> ('a \<Rightarrow> world \<Rightarrow> (pyerr + 'b) \<times> world) \<Rightarrow> (pyerr + 'b) \<times> world" where
  "and_then r f = (case r of (Inl e, w) \<Rightarrow> (Inl e, w) | (Inr v, w) \<Rightarrow> f v w)"

text \<open>A flush: the bulk insert, and the commit right after it.\<close>

definition flush :: "table \<Rightarrow> reading list \<Rightarrow> int \<Rightarrow> world \<Rightarrow> (pyerr + unit) \<times> world" where
  "flush t data batch_size w =
     and_then (execute_batch t data batch_size w) (\<lambda>_ w1. (Inr (), commit w1))"

text \<open>
  The loop \<^verbatim>\<open>for idx, row in df.iterrows()\<close> of the three import functions, which differ
  only in the tuple they build (\<open>cols\<close>) and in the table they insert into (\<open>t\<close>).
  \<open>n\<close> is \<^verbatim>\<open>len(df)\<close>; \<open>idx\<close>, \<open>data\<close> and \<open>skipped\<close> are the loop's variables. The
  result is the buffer and the skip counter at the end of the loop.
\<close>

fun rows_loop ::
  "pylib \<Rightarrow> (column \<times> numeric) list \<Rightarrow> table \<Rightarrow> nat \<Rightarrow> int \<Rightarrow> nat \<Rightarrow>
   dfrow list \<Rightarrow> nat \<Rightarrow> reading list \<Rightarrow> nat \<Rightarrow> world \<Rightarrow> (pyerr + reading list \<times> nat) \<times> world" where
  "rows_loop lib cols t sensor_id batch_size n [] idx data skipped w = (Inr (data, skipped), w)"
| "rows_loop lib cols t sensor_id batch_size n (row # rows) idx data skipped w =
     (case getitem row Fecha of
        Inl e \<Rightarrow> (Inl e, w)
      | Inr c \<Rightarrow>
          (case parse_timestamp lib c of
             None \<Rightarrow>
               rows_loop lib cols t sensor_id batch_size n rows (Suc idx) data (Suc skipped)
                 (print (Could_not_parse_timestamp c) w)
           | Some timestamp \<Rightarrow>
               (case transform cols lib row of
                  Inl e \<Rightarrow> (Inl e, w)
                | Inr ms \<Rightarrow>
                    let data1 = data @ [(timestamp, sensor_id, ms)] in
                    if batch_size \<le> int (length data1) then
                      (case flush t data1 batch_size w of
                         (Inl e, w1) \<Rightarrow> (Inl e, w1)
                       | (Inr u, w1) \<Rightarrow>
                           rows_loop lib cols t sensor_id batch_size n rows (Suc idx) [] skipped
                             (print (Inserted (length data1) (Suc idx) n) w1))
                    else rows_loop lib cols t sensor_id batch_size n rows (Suc idx) data1 skipped w)))"

text \<open>The part after the loop: the remainder, the report of skipped rows, the last line.\<close>

definition finish_sheet ::
  "table \<Rightarrow> string \<Rightarrow> int \<Rightarrow> reading list \<times> nat \<Rightarrow> world \<Rightarrow> (pyerr + unit) \<times> world" where
  "finish_sheet t sheet_name batch_size ds w =
     and_then
       (if fst ds \<noteq> []
        then and_then (flush t (fst ds) batch_size w)
               (\<lambda>_ w1. (Inr (), print (Inserted_final_batch (length (fst ds))) w1))
        else (Inr (), w))
       (\<lambda>_ w2. (Inr (), print (Import_completed sheet_name)
                          (if 0 < snd ds then print (Skipped_rows (snd ds)) w2 else w2)))"

definition import_sensor ::
  "(column \<times> numeric) list \<Rightarrow> table \<Rightarrow> pylib \<Rightarrow> string \<Rightarrow> dataframe \<Rightarrow> string \<Rightarrow> int \<Rightarrow>
   world \<Rightarrow> (pyerr + unit) \<times> world" where
  "import_sensor cols t lib sheet_name df sensor_code batch_size w =
     and_then (get_sensor_id sensor_code w) (\<lambda>sensor_id w1.
     and_then (rows_loop lib cols t sensor_id batch_size (length df) df 0 [] 0
                 (print (Importing sheet_name sensor_code (length df)) w1))
       (finish_sheet t sheet_name batch_size))"

definition import_current_sensor ::
  "pylib \<Rightarrow> string \<Rightarrow> dataframe \<Rightarrow> string \<Rightarrow> int \<Rightarrow> world \<Rightarrow> (pyerr + unit) \<times> world" where
  "import_current_sensor = import_sensor current_fields Current_readings"

definition import_environmental_sensor ::
  "pylib \<Rightarrow> string \<Rightarrow> dataframe \<Rightarrow> string \<Rightarrow> int \<Rightarrow> world \<Rightarrow> (pyerr + unit) \<times> world" where
  "import_environmental_sensor = import_sensor environmental_fields Environmental_readings"

definition import_temperature_sensor ::
  "pylib \<Rightarrow> string \<Rightarrow> dataframe \<Rightarrow> string \<Rightarrow> int \<Rightarrow> world \<Rightarrow> (pyerr + unit) \<times> world" where
  "import_temperature_sensor = import_sensor temperature_fields Temperature_readings"

section \<open>The driver\<close>

text \<open>
  The input file: not there, there but not a workbook, or a workbook with its sheets in
  order (sheet names are unique in a workbook).
\<close>

datatype excel_file = Missing | Unreadable | Workbook "(string \<times> dataframe) list"

text \<open>How a call ends: it returns, an exception leaves it, or \<^verbatim>\<open>sys.exit\<close> was called.\<close>

datatype 'a completion = Returned 'a | Raised pyerr | Exited nat

text \<open>The body of \<^verbatim>\<open>for sheet_name in xls.sheet_names\<close> for one sheet.\<close>

definition import_sheet ::
  "pylib \<Rightarrow> int \<Rightarrow> string \<times> dataframe \<Rightarrow> nat \<Rightarrow> world \<Rightarrow> (pyerr + nat) \<times> world" where
  "import_sheet lib batch_size sheet total_rows w =
     (case SENSOR_MAPPING (fst sheet) of
        None \<Rightarrow> (Inr total_rows, print (Skipping_unknown_sheet (fst sheet)) w)
      | Some (sensor_code, sensor_type) \<Rightarrow>
          and_then
            (case sensor_type of
               Current \<Rightarrow>
                 import_current_sensor lib (fst sheet) (snd sheet) sensor_code batch_size w
             | Environmental \<Rightarrow>
                 import_environmental_sensor lib (fst sheet) (snd sheet) sensor_code batch_size w
             | Temperature \<Rightarrow>
                 import_temperature_sensor lib (fst sheet) (snd sheet) sensor_code batch_size w)
            (\<lambda>_ w1. (Inr (total_rows + length (snd sheet)), w1)))"

fun sheets_loop ::
  "pylib \<Rightarrow> int \<Rightarrow> (string \<times> dataframe) list \<Rightarrow> nat \<Rightarrow> world \<Rightarrow> (pyerr + nat) \<times> world" where
  "sheets_loop lib batch_size [] total_rows w = (Inr total_rows, w)"
| "sheets_loop lib batch_size (sheet # sheets) total_rows w =
     and_then (import_sheet lib batch_size sheet total_rows w)
       (sheets_loop lib batch_size sheets)"

text \<open>
  The summary. \<open>duration\<close> is the time between the two readings of the clock, in
  microseconds; the throughput divides by it.
\<close>

definition print_summary :: "nat \<Rightarrow> nat \<Rightarrow> world \<Rightarrow> (pyerr + unit) \<times> world" where
  "print_summary duration total_rows w =
     (let w1 = print (Duration duration) (print (Total_rows_processed total_rows) w) in
      if duration = 0 then (Inl ZeroDivisionError, w1)
      else (Inr (), print All_imported (print Rows_per_second w1)))"

definition import_all_data ::
  "pylib \<Rightarrow> excel_file \<Rightarrow> int \<Rightarrow> nat \<Rightarrow> world \<Rightarrow> unit completion \<times> world" where
  "import_all_data lib excel_file_path batch_size duration w =
     (case excel_file_path of
        Missing \<Rightarrow> (Exited 1, print File_not_found w)
      | Unreadable \<Rightarrow> (Raised Bad_file, print Reading_file w)
      | Workbook sheets \<Rightarrow>
          (case connect_db (print (Found_sheets (length sheets)) (print Reading_file w)) of
             (False, w1) \<Rightarrow> (Exited 1, w1)
           | (True, w1) \<Rightarrow>
               (case and_then (sheets_loop lib batch_size sheets 0 w1) (print_summary duration) of
                  (Inl e, w2) \<Rightarrow> (Exited 1, close (rollback (print (Import_failed e) w2)))
                | (Inr u, w2) \<Rightarrow> (Returned (), close w2))))"

section \<open>Verification and the command line\<close>

definition count_rows :: "table \<Rightarrow> world \<Rightarrow> (pyerr + unit) \<times> world" where
  "count_rows t w =
     (if present w t then (Inr (), print (Count_line t) (called (Select_count t) w))
      else (Inl (Undefined_table t), w))"

definition verify_import :: "world \<Rightarrow> (pyerr + unit) \<times> world" where
  "verify_import w =
     and_then (count_rows Sensors w) (\<lambda>_ w1.
     and_then (count_rows Current_readings w1) (\<lambda>_ w2.
     and_then (count_rows Environmental_readings w2) (\<lambda>_ w3.
     and_then (count_rows Temperature_readings w3) (\<lambda>_ w4.
       (Inr (), print Total_readings w4)))))"

text \<open>
  The three lines \<^verbatim>\<open>conn = connect_db(); verify_import(conn); conn.close()\<close>, which the
  main block has in both branches.
\<close>

definition connect_verify_close :: "world \<Rightarrow> unit completion \<times> world" where
  "connect_verify_close w =
     (case connect_db w of
        (False, w1) \<Rightarrow> (Exited 1, w1)
      | (True, w1) \<Rightarrow>
          (case verify_import w1 of
             (Inl e, w2) \<Rightarrow> (Raised e, w2)
           | (Inr u, w2) \<Rightarrow> (Returned (), close w2)))"

record args =
  arg_excel_file :: excel_file
  arg_batch_size :: int
  arg_verify_only :: bool

definition main :: "pylib \<Rightarrow> args \<Rightarrow> nat \<Rightarrow> world \<Rightarrow> unit completion \<times> world" where
  "main lib a duration w =
     (if arg_verify_only a then connect_verify_close w
      else
        (case import_all_data lib (arg_excel_file a) (arg_batch_size a) duration w of
           (Returned u, w1) \<Rightarrow> connect_verify_close w1
         | (Raised e, w1) \<Rightarrow> (Raised e, w1)
         | (Exited n, w1) \<Rightarrow> (Exited n, w1)))"

text \<open>The exit status of the process: an exception that leaves the script gives 1.\<close>

fun exit_status :: "unit completion \<Rightarrow> nat" where
  "exit_status (Returned u) = 0"
| "exit_status (Raised e) = 1"
| "exit_status (Exited n) = n"

section \<open>Observations on a run\<close>

text \<open>The bulk inserts among the database calls, and their sizes.\<close>

fun batches :: "dbcall list \<Rightarrow> (table \<times> reading list) list" where
  "batches [] = []"
| "batches (Execute_batch t data # cs) = (t, data) # batches cs"
| "batches (c # cs) = batches cs"

definition flush_sizes :: "dbcall list \<Rightarrow> nat list" where
  "flush_sizes cs = map (\<lambda>b. length (snd b)) (batches cs)"

text \<open>Every bulk insert among the calls has the commit as its next call.\<close>

fun commit_follows :: "dbcall list \<Rightarrow> bool" where
  "commit_follows [] = True"
| "commit_follows (Execute_batch t data # cs) =
     (case cs of Commit # cs1 \<Rightarrow> commit_follows cs1 | _ \<Rightarrow> False)"
| "commit_follows (c # cs) = commit_follows cs"





text \<open>The import function, the tuple and the table of each sensor type.\<close>

fun cols_for :: "sensor_type \<Rightarrow> (column \<times> numeric) list" where
  "cols_for Current = current_fields"
| "cols_for Environmental = environmental_fields"
| "cols_for Temperature = temperature_fields"

fun table_for :: "sensor_type \<Rightarrow> table" where
  "table_for Current = Current_readings"
| "table_for Environmental = Environmental_readings"
| "table_for Temperature = Temperature_readings"

fun import_for ::
  "sensor_type \<Rightarrow> pylib \<Rightarrow> string \<Rightarrow> dataframe \<Rightarrow> string \<Rightarrow> int \<Rightarrow> world \<Rightarrow> (pyerr + unit) \<times> world" where
  "import_for Current = import_current_sensor"
| "import_for Environmental = import_environmental_sensor"
| "import_for Temperature = import_temperature_sensor"

text \<open>The world after a flush that went through, and the calls of a series of flushes.\<close>

definition flushed :: "table \<Rightarrow> reading list \<Rightarrow> world \<Rightarrow> world" where
  "flushed t data w =
     w\<lparr>uncommitted := [], committed := committed w @ uncommitted w @ [(t, data)],
       calls := calls w @ [Execute_batch t data, Commit]\<rparr>"

definition inserts :: "table \<Rightarrow> reading list list \<Rightarrow> dbcall list" where
  "inserts t ds = concat (map (\<lambda>d. [Execute_batch t d, Commit]) ds)"

text \<open>The database calls made between two worlds of a run.\<close>

definition new_calls :: "world \<Rightarrow> world \<Rightarrow> dbcall list" where
  "new_calls w w' = drop (length (calls w)) (calls w')"

text \<open>
  \<open>same_setup\<close>: the run did not change what it only reads. \<open>flushes_committed\<close>: every
  bulk insert made since \<open>w\<close> had its commit as the next call, and what is durable is what
  was durable in \<open>w\<close> followed by those bulk inserts. \<open>proceeds\<close>: both, with no
  transaction left open and the connection kept.
\<close>

definition same_setup :: "world \<Rightarrow> world \<Rightarrow> bool" where
  "same_setup w w' \<longleftrightarrow>
     registry w' = registry w \<and> present w' = present w \<and> reachable w' = reachable w"

definition flushes_committed :: "world \<Rightarrow> world \<Rightarrow> bool" where
  "flushes_committed w w' \<longleftrightarrow>
     calls w' = calls w @ new_calls w w' \<and>
     commit_follows (new_calls w w') \<and>
     committed w' = committed w @ batches (new_calls w w')"

definition proceeds :: "world \<Rightarrow> world \<Rightarrow> bool" where
  "proceeds w w' \<longleftrightarrow>
     uncommitted w' = [] \<and> flushes_committed w w' \<and> same_setup w w' \<and>
     open_connections w' = open_connections w"

text \<open>The world after the count queries on the tables \<open>ts\<close>, each with its printed line.\<close>

fun counted :: "table list \<Rightarrow> world \<Rightarrow> world" where
  "counted [] w = w"
| "counted (t # ts) w = counted ts (print (Count_line t) (called (Select_count t) w))"

definition count_queries :: "dbcall list" where
  "count_queries =
     [Select_count Sensors, Select_count Current_readings,
      Select_count Environmental_readings, Select_count Temperature_readings]"

subsection \<open>Sample inputs\<close>

text \<open>
  A library instance for the examples: dates parse to themselves, a missing cell gives
  not-a-time, a text or a number in the date column raises; no text reads as a number.
\<close>

definition sample_lib :: pylib where
  "sample_lib =
     \<lparr>to_datetime = (\<lambda>c. case c of
          Val (Datetime d) \<Rightarrow> Inr (Timestamp d)
        | Val v \<Rightarrow> Inl Parse_error
        | _ \<Rightarrow> Inr Not_a_time),
      float_of_text = (\<lambda>s. None),
      int_of_text = (\<lambda>s. None)\<rparr>"

definition sample_world :: world where
  "sample_world =
     \<lparr>reachable = True, present = (\<lambda>t. True),
      registry = [(''c1'', 1), (''s1'', 2), (''t1'', 7)],
      committed = [], uncommitted = [], open_connections = 0, calls = [], stdout = []\<rparr>"

text \<open>A row of a temperature sheet, and one with its date missing.\<close>

definition t_row :: "nat \<Rightarrow> dfrow" where
  "t_row d =
     [Fecha \<mapsto> Val (Datetime d), Humedad_relativa \<mapsto> Val (Number 41.7),
      Temperatura_C \<mapsto> Val (Number 21.5), Tension_bateria_mV \<mapsto> NaN]"

definition bad_date_row :: dfrow where
  "bad_date_row = (t_row 0)(Fecha \<mapsto> Val (Text ''n/a''))"

definition bad_cast_row :: dfrow where
  "bad_cast_row = (t_row 0)(Humedad_relativa \<mapsto> Val (Text ''high''))"

text \<open>Command lines: an import of a workbook, and the verification alone.\<close>

definition import_args :: "(string \<times> dataframe) list \<Rightarrow> int \<Rightarrow> args" where
  "import_args sheets b =
     \<lparr>arg_excel_file = Workbook sheets, arg_batch_size = b, arg_verify_only = False\<rparr>"

definition verify_args :: args where
  "verify_args = \<lparr>arg_excel_file = Missing, arg_batch_size = 1000, arg_verify_only = True\<rparr>"

text \<open>
  A run that aborts: batches of two rows, and a sheet whose fourth row has a text in a
  numeric column.
\<close>

definition aborted_run :: "unit completion \<times> world" where
  "aborted_run =
     main sample_lib
       (import_args [(''Sensor t1'', [t_row 1, t_row 2, t_row 3, bad_cast_row])] 2) 5 sample_world"

text \<open>A database where only the sensor registry has been created so far.\<close>

definition unprovisioned_world :: world where
  "unprovisioned_world = sample_world\<lparr>present := (\<lambda>t. t = Sensors)\<rparr>"

text \<open>A run over a workbook whose second sheet names a sensor the registry does not have.\<close>

definition unregistered_sheets :: "(string \<times> dataframe) list" where
  "unregistered_sheets =
     [(''Sensor t1'', [t_row 1]), (''Sensor t2'', [t_row 2]), (''Sensor s1'', [])]"

definition unregistered_run :: "unit completion \<times> world" where
  "unregistered_run = main sample_lib (import_args unregistered_sheets 1000) 5 sample_world"

text \<open>A database server that cannot be reached.\<close>

definition offline_world :: world where
  "offline_world = sample_world\<lparr>reachable := False\<rparr>"

text \<open>A temperature sheet of four rows, the second with a date that does not parse.\<close>

definition sample_sheet :: dataframe where
  "sample_sheet = [t_row 1, bad_date_row, t_row 2, t_row 3]"


text \<open>A row whose date cell is empty.\<close>

definition no_date_row :: dfrow where
  "no_date_row = (t_row 0)(Fecha \<mapsto> NaN)"

section \<open>Basic facts\<close>

lemma batches_append: "batches (xs @ ys) = batches xs @ batches ys"
  by (induction xs rule: batches.induct) simp_all

lemma flush_sizes_append: "flush_sizes (xs @ ys) = flush_sizes xs @ flush_sizes ys"
  by (simp add: flush_sizes_def batches_append)

lemma commit_follows_append:
  "commit_follows xs \<Longrightarrow> commit_follows ys \<Longrightarrow> commit_follows (xs @ ys)"
  by (induction xs rule: commit_follows.induct) (auto split: list.splits dbcall.splits)

lemma print_fields [simp]:
  "calls (print m w) = calls w" "committed (print m w) = committed w"
  "uncommitted (print m w) = uncommitted w" "present (print m w) = present w"
  "registry (print m w) = registry w" "reachable (print m w) = reachable w"
  "open_connections (print m w) = open_connections w"
  "stdout (print m w) = stdout w @ [m]"
  by (simp_all add: print_def)

lemma flushed_fields [simp]:
  "calls (flushed t d w) = calls w @ [Execute_batch t d, Commit]"
  "committed (flushed t d w) = committed w @ uncommitted w @ [(t, d)]"
  "uncommitted (flushed t d w) = []" "present (flushed t d w) = present w"
  "registry (flushed t d w) = registry w" "reachable (flushed t d w) = reachable w"
  "open_connections (flushed t d w) = open_connections w"
  "stdout (flushed t d w) = stdout w"
  by (simp_all add: flushed_def)

lemma flush_result:
  "flush t data B w =
     (if B < 1 then (Inl Empty_query, w)
      else if data \<noteq> [] \<and> \<not> present w t then (Inl (Undefined_table t), w)
      else (Inr (), flushed t data w))"
  by (simp add: flush_def execute_batch_def and_then_def commit_def called_def flushed_def)

lemma rows_loop_step:
  obtains
    (no_date) "row Fecha = None"
      "rows_loop lib cols t sid B n (row # rows) idx data sk w = (Inl (KeyError Fecha), w)"
  | (skipped) c where "row Fecha = Some c" "parse_timestamp lib c = None"
      "rows_loop lib cols t sid B n (row # rows) idx data sk w =
       rows_loop lib cols t sid B n rows (Suc idx) data (Suc sk)
         (print (Could_not_parse_timestamp c) w)"
  | (bad_cell) c ts e where "row Fecha = Some c" "parse_timestamp lib c = Some ts"
      "transform cols lib row = Inl e"
      "rows_loop lib cols t sid B n (row # rows) idx data sk w = (Inl e, w)"
  | (buffered) c ts ms where "row Fecha = Some c" "parse_timestamp lib c = Some ts"
      "transform cols lib row = Inr ms" "int (length data) + 1 < B"
      "rows_loop lib cols t sid B n (row # rows) idx data sk w =
       rows_loop lib cols t sid B n rows (Suc idx) (data @ [(ts, sid, ms)]) sk w"
  | (flush_failed) c ts ms e where "row Fecha = Some c" "parse_timestamp lib c = Some ts"
      "transform cols lib row = Inr ms" "B \<le> int (length data) + 1"
      "B < 1 \<or> \<not> present w t"
      "rows_loop lib cols t sid B n (row # rows) idx data sk w = (Inl e, w)"
  | (flushed) c ts ms where "row Fecha = Some c" "parse_timestamp lib c = Some ts"
      "transform cols lib row = Inr ms" "B \<le> int (length data) + 1"
      "1 \<le> B" "present w t"
      "rows_loop lib cols t sid B n (row # rows) idx data sk w =
       rows_loop lib cols t sid B n rows (Suc idx) [] sk
         (print (Inserted (Suc (length data)) (Suc idx) n)
            (flushed t (data @ [(ts, sid, ms)]) w))"
proof (cases "row Fecha")
  case None
  then show ?thesis using no_date by (simp add: getitem_def)
next
  case (Some c)
  note c = this
  show ?thesis
  proof (cases "parse_timestamp lib c")
    case None
    with c show ?thesis using skipped by (simp add: getitem_def)
  next
    case (Some ts)
    note ts = this
    show ?thesis
    proof (cases "transform cols lib row")
      case (Inl e)
      with c ts show ?thesis using bad_cell by (simp add: getitem_def)
    next
      case (Inr ms)
      note ms = this
      show ?thesis
      proof (cases "B \<le> int (length data) + 1")
        case False
        with c ts ms show ?thesis using buffered[of c ts ms] by (simp add: getitem_def Let_def)
      next
        case True
        show ?thesis
        proof (cases "1 \<le> B \<and> present w t")
          case True
          with \<open>B \<le> int (length data) + 1\<close> c ts ms show ?thesis
            using flushed[of c ts ms] by (simp add: getitem_def Let_def flush_result)
        next
          case False
          with \<open>B \<le> int (length data) + 1\<close> c ts ms show ?thesis
            using flush_failed[of c ts ms]
            by (cases "B < 1") (simp_all add: getitem_def Let_def flush_result)
        qed
      qed
    qed
  qed
qed



lemma batches_inserts: "batches (inserts t ds) = map (Pair t) ds"
  by (induction ds) (simp_all add: inserts_def)



subsection \<open>What every run keeps\<close>

lemma called_fields [simp]:
  "calls (called c w) = calls w @ [c]" "committed (called c w) = committed w"
  "uncommitted (called c w) = uncommitted w" "present (called c w) = present w"
  "registry (called c w) = registry w" "reachable (called c w) = reachable w"
  "open_connections (called c w) = open_connections w"
  "stdout (called c w) = stdout w"
  by (simp_all add: called_def)

lemma flushes_committedI:
  "calls w' = calls w @ cs \<Longrightarrow> commit_follows cs \<Longrightarrow> committed w' = committed w @ batches cs \<Longrightarrow>
   flushes_committed w w'"
  by (simp add: flushes_committed_def new_calls_def)

lemma flushes_committedE:
  assumes "flushes_committed w w'"
  obtains cs where "calls w' = calls w @ cs" "commit_follows cs"
    "committed w' = committed w @ batches cs" "new_calls w w' = cs"
  using assms by (auto simp: flushes_committed_def)

lemma flushes_committed_trans:
  assumes "flushes_committed w w1" "flushes_committed w1 w2"
  shows "flushes_committed w w2"
proof -
  from assms(1) obtain cs1 where 1: "calls w1 = calls w @ cs1" "commit_follows cs1"
    "committed w1 = committed w @ batches cs1" by (rule flushes_committedE)
  from assms(2) obtain cs2 where 2: "calls w2 = calls w1 @ cs2" "commit_follows cs2"
    "committed w2 = committed w1 @ batches cs2" by (rule flushes_committedE)
  show ?thesis
    by (rule flushes_committedI[where cs = "cs1 @ cs2"])
       (simp_all add: 1 2 commit_follows_append batches_append)
qed

lemma same_setup_trans: "same_setup w w1 \<Longrightarrow> same_setup w1 w2 \<Longrightarrow> same_setup w w2"
  by (simp add: same_setup_def)

lemma proceeds_refl: "uncommitted w = [] \<Longrightarrow> proceeds w w"
  by (simp add: proceeds_def same_setup_def flushes_committed_def new_calls_def)

lemma proceeds_trans: "proceeds w w1 \<Longrightarrow> proceeds w1 w2 \<Longrightarrow> proceeds w w2"
  unfolding proceeds_def by (auto intro: flushes_committed_trans same_setup_trans)

lemma proceeds_print: "proceeds w w' \<Longrightarrow> proceeds w (print m w')"
  by (simp add: proceeds_def same_setup_def flushes_committed_def new_calls_def)

lemma proceeds_from_print: "proceeds (print m w) w' \<Longrightarrow> proceeds w w'"
  by (simp add: proceeds_def same_setup_def flushes_committed_def new_calls_def)

lemma proceeds_flushed: "uncommitted w = [] \<Longrightarrow> proceeds w (flushed t d w)"
  by (simp add: proceeds_def same_setup_def flushes_committed_def new_calls_def)

lemma proceeds_uncommitted: "proceeds w w' \<Longrightarrow> uncommitted w' = []"
  by (simp add: proceeds_def)

lemma rows_loop_proceeds:
  "uncommitted w = [] \<Longrightarrow> rows_loop lib cols t sid B n rows idx data sk w = (r, w') \<Longrightarrow>
   proceeds w w'"
proof (induction rows arbitrary: idx data sk w)
  case Nil
  then show ?case by (simp add: proceeds_refl)
next
  case (Cons row rows)
  show ?case
  proof (cases rule: rows_loop_step[of row lib cols t sid B n rows idx data sk w])
    case no_date
    with Cons.prems show ?thesis by (simp add: proceeds_refl)
  next
    case (skipped c)
    with Cons.prems Cons.IH[of "print (Could_not_parse_timestamp c) w" "Suc idx" data "Suc sk"]
    show ?thesis by (simp add: proceeds_from_print)
  next
    case (bad_cell c ts e)
    with Cons.prems show ?thesis by (simp add: proceeds_refl)
  next
    case (buffered c ts ms)
    with Cons.prems Cons.IH[of w "Suc idx" "data @ [(ts, sid, ms)]" sk]
    show ?thesis by simp
  next
    case (flush_failed c ts ms e)
    with Cons.prems show ?thesis by (simp add: proceeds_refl)
  next
    case (flushed c ts ms)
    let ?w1 = "flushed t (data @ [(ts, sid, ms)]) w"
    from flushed(7) Cons.prems(2)
    have "rows_loop lib cols t sid B n rows (Suc idx) [] sk
           (print (Inserted (Suc (length data)) (Suc idx) n) ?w1) = (r, w')" by simp
    then have "proceeds (print (Inserted (Suc (length data)) (Suc idx) n) ?w1) w'"
      by (rule Cons.IH[rotated]) simp
    then have "proceeds ?w1 w'" by (rule proceeds_from_print)
    with proceeds_flushed[OF Cons.prems(1)] show ?thesis by (rule proceeds_trans)
  qed
qed

lemma get_sensor_id_proceeds:
  "uncommitted w = [] \<Longrightarrow> get_sensor_id code w = (r, w') \<Longrightarrow> proceeds w w'"
  by (auto simp: get_sensor_id_def Let_def proceeds_def same_setup_def flushes_committed_def
        new_calls_def split: if_splits option.splits)

lemma flush_proceeds:
  "uncommitted w = [] \<Longrightarrow> flush t d B w = (r, w') \<Longrightarrow> proceeds w w'"
  by (auto simp: flush_result proceeds_refl proceeds_flushed split: if_splits)

lemma finish_sheet_proceeds:
  assumes "uncommitted w = []" "finish_sheet t name B ds w = (r, w')"
  shows "proceeds w w'"
proof (cases "fst ds = []")
  case True
  with assms show ?thesis
    by (auto simp: finish_sheet_def and_then_def proceeds_refl intro!: proceeds_print)
next
  case False
  obtain r1 w1 where f: "flush t (fst ds) B w = (r1, w1)" by (cases "flush t (fst ds) B w")
  have p: "proceeds w w1" using assms(1) f by (rule flush_proceeds)
  from assms(2) False f p show ?thesis
    by (cases r1) (auto simp: finish_sheet_def and_then_def intro!: proceeds_print)
qed

lemma import_sensor_proceeds:
  assumes "uncommitted w = []" "import_sensor cols t lib name df code B w = (r, w')"
  shows "proceeds w w'"
proof -
  obtain r1 w1 where g: "get_sensor_id code w = (r1, w1)" by (cases "get_sensor_id code w")
  have p1: "proceeds w w1" using assms(1) g by (rule get_sensor_id_proceeds)
  show ?thesis
  proof (cases r1)
    case (Inl e)
    with assms(2) g p1 show ?thesis by (simp add: import_sensor_def and_then_def)
  next
    case (Inr sid)
    let ?w2 = "print (Importing name code (length df)) w1"
    obtain r3 w3 where l: "rows_loop lib cols t sid B (length df) df 0 [] 0 ?w2 = (r3, w3)"
      by (cases "rows_loop lib cols t sid B (length df) df 0 [] 0 ?w2")
    from p1 have "uncommitted ?w2 = []" by (simp add: proceeds_def)
    then have "proceeds ?w2 w3" using l by (rule rows_loop_proceeds)
    then have p3: "proceeds w w3" using p1 by (blast intro: proceeds_trans proceeds_from_print)
    show ?thesis
    proof (cases r3)
      case (Inl e)
      with assms(2) g Inr l p3 show ?thesis by (simp add: import_sensor_def and_then_def)
    next
      case ds: (Inr ds)
      with assms(2) g Inr l have "finish_sheet t name B ds w3 = (r, w')"
        by (simp add: import_sensor_def and_then_def)
      with proceeds_uncommitted[OF p3] have "proceeds w3 w'" by (rule finish_sheet_proceeds)
      with p3 show ?thesis by (rule proceeds_trans)
    qed
  qed
qed

lemma import_sheet_proceeds:
  assumes "uncommitted w = []" "import_sheet lib B sheet tot w = (r, w')"
  shows "proceeds w w'"
proof (cases "SENSOR_MAPPING (fst sheet)")
  case None
  with assms show ?thesis by (auto simp: import_sheet_def proceeds_refl intro!: proceeds_print)
next
  case (Some ct)
  obtain code ty where ct: "ct = (code, ty)" by (cases ct)
  obtain r1 w1 where i: "import_sensor (cols_for ty) (table_for ty) lib (fst sheet) (snd sheet) code B w = (r1, w1)"
    by (cases "import_sensor (cols_for ty) (table_for ty) lib (fst sheet) (snd sheet) code B w")
  have "proceeds w w1" using assms(1) i by (rule import_sensor_proceeds)
  with assms(2) Some ct i show ?thesis
    by (cases ty; cases r1)
       (auto simp: import_sheet_def and_then_def import_current_sensor_def
          import_environmental_sensor_def import_temperature_sensor_def)
qed

lemma sheets_loop_proceeds:
  "uncommitted w = [] \<Longrightarrow> sheets_loop lib B sheets tot w = (r, w') \<Longrightarrow> proceeds w w'"
proof (induction sheets arbitrary: tot w)
  case Nil
  then show ?case by (simp add: proceeds_refl)
next
  case (Cons sheet sheets)
  obtain r1 w1 where i: "import_sheet lib B sheet tot w = (r1, w1)"
    by (cases "import_sheet lib B sheet tot w")
  have p: "proceeds w w1" using Cons.prems(1) i by (rule import_sheet_proceeds)
  show ?case
  proof (cases r1)
    case (Inl e)
    with Cons.prems i p show ?thesis by (simp add: and_then_def)
  next
    case (Inr tot1)
    with Cons.prems i have "sheets_loop lib B sheets tot1 w1 = (r, w')"
      by (simp add: and_then_def)
    with proceeds_uncommitted[OF p] have "proceeds w1 w'" by (rule Cons.IH)
    with p show ?thesis by (rule proceeds_trans)
  qed
qed

lemma connect_db_result:
  "connect_db w =
     (if reachable w
      then (True, print Connection_established (called Connect
              (print Connecting w\<lparr>uncommitted := [], open_connections := Suc (open_connections w)\<rparr>)))
      else (False, print Connection_failed (print Connecting w)))"
  by (simp add: connect_db_def Let_def)

lemma connect_db_flushes_committed:
  "connect_db w = (b, w') \<Longrightarrow> flushes_committed w w' \<and> same_setup w w'"
  by (auto simp: connect_db_result flushes_committed_def new_calls_def same_setup_def print_def
      called_def split: if_splits)

lemma connect_db_True:
  "connect_db w = (True, w') \<Longrightarrow>
     uncommitted w' = [] \<and> open_connections w' = Suc (open_connections w) \<and>
     calls w' = calls w @ [Connect] \<and> reachable w"
  by (auto simp: connect_db_result print_def called_def split: if_splits)

lemma connect_db_False:
  "connect_db w = (False, w') \<Longrightarrow>
     calls w' = calls w \<and> open_connections w' = open_connections w \<and> \<not> reachable w"
  by (auto simp: connect_db_result print_def called_def split: if_splits)

lemma close_fields [simp]:
  "calls (close w) = calls w @ [Close]" "committed (close w) = committed w"
  "uncommitted (close w) = []" "present (close w) = present w"
  "registry (close w) = registry w" "reachable (close w) = reachable w"
  "open_connections (close w) = open_connections w - 1"
  "stdout (close w) = stdout w"
  by (simp_all add: close_def)

lemma rollback_fields [simp]:
  "calls (rollback w) = calls w @ [Rollback]" "committed (rollback w) = committed w"
  "uncommitted (rollback w) = []" "present (rollback w) = present w"
  "registry (rollback w) = registry w" "reachable (rollback w) = reachable w"
  "open_connections (rollback w) = open_connections w"
  "stdout (rollback w) = stdout w"
  by (simp_all add: rollback_def)

lemma flushes_committed_step:
  assumes "flushes_committed w w1" "calls w2 = calls w1 @ cs" "commit_follows cs" "batches cs = []"
    "committed w2 = committed w1"
  shows "flushes_committed w w2"
proof -
  have "flushes_committed w1 w2"
    by (rule flushes_committedI[where cs = cs]) (simp_all add: assms)
  with assms(1) show ?thesis by (rule flushes_committed_trans)
qed

lemma print_summary_proceeds:
  "uncommitted w = [] \<Longrightarrow> print_summary d n w = (r, w') \<Longrightarrow> proceeds w w'"
  by (auto simp: print_summary_def Let_def proceeds_refl split: if_splits intro!: proceeds_print)

lemma try_body_proceeds:
  assumes "uncommitted w = []"
    "and_then (sheets_loop lib B sheets 0 w) (print_summary d) = (r, w')"
  shows "proceeds w w'"
proof -
  obtain r1 w1 where l: "sheets_loop lib B sheets 0 w = (r1, w1)"
    by (cases "sheets_loop lib B sheets 0 w")
  have p: "proceeds w w1" using assms(1) l by (rule sheets_loop_proceeds)
  show ?thesis
  proof (cases r1)
    case (Inl e)
    with assms(2) l p show ?thesis by (simp add: and_then_def)
  next
    case (Inr n)
    with assms(2) l have "print_summary d n w1 = (r, w')" by (simp add: and_then_def)
    with proceeds_uncommitted[OF p] have "proceeds w1 w'" by (rule print_summary_proceeds)
    with p show ?thesis by (rule proceeds_trans)
  qed
qed

subsection \<open>The verification path\<close>

lemma counted_fields [simp]:
  "calls (counted ts w) = calls w @ map Select_count ts" "committed (counted ts w) = committed w"
  "uncommitted (counted ts w) = uncommitted w" "present (counted ts w) = present w"
  "registry (counted ts w) = registry w" "reachable (counted ts w) = reachable w"
  "open_connections (counted ts w) = open_connections w"
  by (induction ts arbitrary: w) simp_all

lemma verify_import_result:
  "verify_import w =
     (if \<not> present w Sensors then (Inl (Undefined_table Sensors), w)
      else if \<not> present w Current_readings
        then (Inl (Undefined_table Current_readings), counted [Sensors] w)
      else if \<not> present w Environmental_readings
        then (Inl (Undefined_table Environmental_readings), counted [Sensors, Current_readings] w)
      else if \<not> present w Temperature_readings
        then (Inl (Undefined_table Temperature_readings),
              counted [Sensors, Current_readings, Environmental_readings] w)
      else (Inr (), print Total_readings
              (counted [Sensors, Current_readings, Environmental_readings, Temperature_readings] w)))"
  by (simp add: verify_import_def and_then_def count_rows_def)

lemma verify_import_calls:
  assumes "verify_import w = (r, w')"
  shows "\<exists>k. calls w' = calls w @ take k count_queries \<and> (r = Inr () \<longrightarrow> k = 4) \<and>
          (\<forall>e. r = Inl e \<longrightarrow> k < 4)"
    and "committed w' = committed w" and "uncommitted w' = uncommitted w"
    and "open_connections w' = open_connections w" and "same_setup w w'"
proof -
  consider (0) "\<not> present w Sensors"
    | (1) "present w Sensors" "\<not> present w Current_readings"
    | (2) "present w Sensors" "present w Current_readings" "\<not> present w Environmental_readings"
    | (3) "present w Sensors" "present w Current_readings" "present w Environmental_readings"
        "\<not> present w Temperature_readings"
    | (4) "present w Sensors" "present w Current_readings" "present w Environmental_readings"
        "present w Temperature_readings"
    by blast
  then show "\<exists>k. calls w' = calls w @ take k count_queries \<and> (r = Inr () \<longrightarrow> k = 4) \<and>
          (\<forall>e. r = Inl e \<longrightarrow> k < 4)"
  proof cases
    case 0 with assms show ?thesis by (intro exI[of _ 0]) (auto simp: verify_import_result)
  next
    case 1 with assms show ?thesis
      by (intro exI[of _ 1]) (auto simp: verify_import_result count_queries_def)
  next
    case 2 with assms show ?thesis
      by (intro exI[of _ 2]) (auto simp: verify_import_result count_queries_def)
  next
    case 3 with assms show ?thesis
      by (intro exI[of _ 3]) (auto simp: verify_import_result count_queries_def)
  next
    case 4 with assms show ?thesis
      by (intro exI[of _ 4]) (auto simp: verify_import_result count_queries_def)
  qed
  from assms show "committed w' = committed w" "uncommitted w' = uncommitted w"
    "open_connections w' = open_connections w" "same_setup w w'"
    by (auto simp: verify_import_result same_setup_def split: if_splits)
qed

lemma batches_take_count_queries: "batches (take k count_queries) = []"
proof -
  have "batches (map Select_count ts) = []" for ts by (induction ts) simp_all
  moreover have "take k count_queries =
      map Select_count (take k [Sensors, Current_readings, Environmental_readings, Temperature_readings])"
    by (simp add: count_queries_def take_map[symmetric] del: take_map)
  ultimately show ?thesis by simp
qed

lemma commit_follows_take_count_queries: "commit_follows (take k count_queries)"
proof -
  have "commit_follows (map Select_count ts)" for ts by (induction ts) simp_all
  moreover have "take k count_queries =
      map Select_count (take k [Sensors, Current_readings, Environmental_readings, Temperature_readings])"
    by (simp add: count_queries_def take_map[symmetric] del: take_map)
  ultimately show ?thesis by simp
qed

lemma flushes_committed_print: "flushes_committed w (print m w)"
  by (simp add: flushes_committed_def new_calls_def)

lemma connect_verify_close_run:
  assumes "connect_verify_close w = (r, w')"
  shows "flushes_committed w w'" and "same_setup w w'" and "committed w' = committed w"
    and "\<exists>k. new_calls w w' =
           (if reachable w then Connect # take k count_queries @ (if r = Returned () then [Close] else [])
            else []) \<and> (reachable w \<longrightarrow> (r = Returned ()) = (k = 4))"
proof -
  obtain b w1 where c: "connect_db w = (b, w1)" by (cases "connect_db w")
  have goal: "flushes_committed w w' \<and> same_setup w w' \<and> committed w' = committed w \<and>
    (\<exists>k. new_calls w w' =
           (if reachable w then Connect # take k count_queries @ (if r = Returned () then [Close] else [])
            else []) \<and> (reachable w \<longrightarrow> (r = Returned ()) = (k = 4)))"
  proof (cases b)
    case False
    with c assms have w': "w' = w1" "r = Exited 1" by (simp_all add: connect_verify_close_def)
    from c False have "\<not> reachable w" "calls w1 = calls w" "committed w1 = committed w"
      by (auto simp: connect_db_result split: if_splits)
    with connect_db_flushes_committed[OF c] w' show ?thesis by (simp add: new_calls_def)
  next
    case True
    with c have w1: "calls w1 = calls w @ [Connect]" "reachable w" "committed w1 = committed w"
      by (auto simp: connect_db_result split: if_splits)
    obtain r2 w2 where v: "verify_import w1 = (r2, w2)" by (cases "verify_import w1")
    from verify_import_calls[OF v] obtain k where
      k: "calls w2 = calls w1 @ take k count_queries" "r2 = Inr () \<longrightarrow> k = 4"
         "\<forall>e. r2 = Inl e \<longrightarrow> k < 4"
      and others: "committed w2 = committed w1" "same_setup w1 w2" by blast
    have fc1: "flushes_committed w w1" and ss1: "same_setup w w1"
      using connect_db_flushes_committed[OF c] by simp_all
    have fc2: "flushes_committed w w2"
      by (rule flushes_committed_step[OF fc1 k(1)])
         (simp_all add: others batches_take_count_queries commit_follows_take_count_queries)
    have ss2: "same_setup w w2" using ss1 others(2) by (rule same_setup_trans)
    show ?thesis
    proof (cases r2)
      case (Inl e)
      with assms c True v have "w' = w2" "r = Raised e" by (simp_all add: connect_verify_close_def)
      with fc2 ss2 others w1 k Inl show ?thesis
        by (auto simp: new_calls_def intro!: exI[of _ k])
    next
      case (Inr u)
      with assms c True v have w': "w' = close w2" "r = Returned ()"
        by (simp_all add: connect_verify_close_def)
      have "flushes_committed w (close w2)"
        by (rule flushes_committed_step[OF fc2, where cs = "[Close]"]) simp_all
      moreover have "same_setup w (close w2)" using ss2 by (simp add: same_setup_def)
      ultimately show ?thesis using w' others w1 k Inr
        by (auto simp: new_calls_def intro!: exI[of _ k])
    qed
  qed
  then show "flushes_committed w w'" "same_setup w w'" "committed w' = committed w"
    "\<exists>k. new_calls w w' =
           (if reachable w then Connect # take k count_queries @ (if r = Returned () then [Close] else [])
            else []) \<and> (reachable w \<longrightarrow> (r = Returned ()) = (k = 4))"
    by blast+
qed

subsection \<open>The driver\<close>

lemma import_all_data_run:
  assumes "import_all_data lib f B d w = (r, w')"
  shows "flushes_committed w w'" and "same_setup w w'"
    and "open_connections w' = open_connections w"
proof -
  have goal: "flushes_committed w w' \<and> same_setup w w' \<and> open_connections w' = open_connections w"
  proof (cases f)
    case Missing
    with assms show ?thesis
      by (auto simp: import_all_data_def flushes_committed_print same_setup_def)
  next
    case Unreadable
    with assms show ?thesis
      by (auto simp: import_all_data_def flushes_committed_print same_setup_def)
  next
    case (Workbook sheets)
    let ?w0 = "print (Found_sheets (length sheets)) (print Reading_file w)"
    obtain b w1 where c: "connect_db ?w0 = (b, w1)" by (cases "connect_db ?w0")
    have fc0: "flushes_committed w ?w0" "same_setup w ?w0"
      by (simp_all add: flushes_committed_def new_calls_def same_setup_def)
    from connect_db_flushes_committed[OF c] fc0
    have fc1: "flushes_committed w w1" and ss1: "same_setup w w1"
      by (blast intro: flushes_committed_trans same_setup_trans)+
    show ?thesis
    proof (cases b)
      case False
      with assms Workbook c have "w' = w1" by (simp add: import_all_data_def)
      with fc1 ss1 connect_db_False[of ?w0 w1] c False show ?thesis by simp
    next
      case True
      with c connect_db_True[of ?w0 w1]
      have w1: "uncommitted w1 = []" "open_connections w1 = Suc (open_connections w)" by simp_all
      obtain r2 w2 where t: "and_then (sheets_loop lib B sheets 0 w1) (print_summary d) = (r2, w2)"
        by (cases "and_then (sheets_loop lib B sheets 0 w1) (print_summary d)")
      have p: "proceeds w1 w2" using w1(1) t by (rule try_body_proceeds)
      then have fc2: "flushes_committed w w2" and ss2: "same_setup w w2"
        and oc2: "open_connections w2 = Suc (open_connections w)"
        using fc1 ss1 w1(2)
        by (auto simp: proceeds_def intro: flushes_committed_trans same_setup_trans)
      show ?thesis
      proof (cases r2)
        case (Inl e)
        with assms Workbook c True t
        have w': "w' = close (rollback (print (Import_failed e) w2))"
          by (simp add: import_all_data_def)
        have "flushes_committed w w'"
          by (rule flushes_committed_step[OF fc2, where cs = "[Rollback, Close]"])
             (simp_all add: w')
        with ss2 oc2 show ?thesis by (simp add: w' same_setup_def)
      next
        case (Inr u)
        with assms Workbook c True t have w': "w' = close w2"
          by (simp add: import_all_data_def)
        have "flushes_committed w w'"
          by (rule flushes_committed_step[OF fc2, where cs = "[Close]"]) (simp_all add: w')
        with ss2 oc2 show ?thesis by (simp add: w' same_setup_def)
      qed
    qed
  qed
  then show "flushes_committed w w'" "same_setup w w'"
    "open_connections w' = open_connections w" by blast+
qed

lemma main_flushes_committed:
  assumes "main lib a d w = (r, w')"
  shows "flushes_committed w w'"
proof (cases "arg_verify_only a")
  case True
  with assms show ?thesis by (simp add: main_def connect_verify_close_run(1))
next
  case False
  obtain r1 w1 where i: "import_all_data lib (arg_excel_file a) (arg_batch_size a) d w = (r1, w1)"
    by (cases "import_all_data lib (arg_excel_file a) (arg_batch_size a) d w")
  have fc1: "flushes_committed w w1" using i by (rule import_all_data_run)
  show ?thesis
  proof (cases r1)
    case (Returned u)
    with assms False i have "connect_verify_close w1 = (r, w')" by (simp add: main_def)
    then have "flushes_committed w1 w'" by (rule connect_verify_close_run)
    with fc1 show ?thesis by (rule flushes_committed_trans)
  next
    case (Raised e)
    with assms False i fc1 show ?thesis by (simp add: main_def)
  next
    case (Exited n)
    with assms False i fc1 show ?thesis by (simp add: main_def)
  qed
qed

section \<open>Evaluating sample runs\<close>

lemmas run_defs =
  main_def import_all_data_def connect_verify_close_def connect_db_def verify_import_def
  count_rows_def print_summary_def import_sheet_def import_current_sensor_def
  import_environmental_sensor_def import_temperature_sensor_def import_sensor_def
  finish_sheet_def flush_def execute_batch_def get_sensor_id_def and_then_def
  commit_def rollback_def close_def called_def print_def
  transform_def numeric_field_def getitem_def cast_def parse_timestamp_def
  current_fields_def environmental_fields_def temperature_fields_def SENSOR_MAPPING_def
  sample_lib_def sample_world_def t_row_def bad_date_row_def bad_cast_row_def
  import_args_def verify_args_def unprovisioned_world_def unregistered_sheets_def
  offline_world_def sample_sheet_def no_date_row_def new_calls_def Let_def

lemma aborted_run_calls:
  "fst aborted_run = Exited 1 \<and>
   new_calls sample_world (snd aborted_run) =
     [Connect, Select_sensor_id ''t1'',
      Execute_batch Temperature_readings
        [(Timestamp 1, 7, [FInt 41, FFloat 21.5, FNone]),
         (Timestamp 2, 7, [FInt 41, FFloat 21.5, FNone])],
      Commit, Rollback, Close]"
  unfolding aborted_run_def by (simp add: run_defs)

section \<open>The claims\<close>

text \<open>
  Claim C5. Every batch flush is immediately followed by a commit, so whatever ends the
  run, the batches flushed before persist. For every run of the script, from any world
  and with any arguments: among the database calls of the run each bulk insert has the
  commit as its next call, and the durable inserts at the end are those of the start
  followed by every bulk insert of the run, in order. The rollback of the failure
  handler therefore removes no flushed batch; what is lost is the buffer that was never
  flushed.
\<close>

theorem flush_then_commit_persists:
  assumes "main lib a duration w = (r, w')"
  shows "calls w' = calls w @ new_calls w w' \<and>
         commit_follows (new_calls w w') \<and>
         committed w' = committed w @ batches (new_calls w w')"
  using main_flushes_committed[OF assms] by (simp add: flushes_committed_def)

theorem flush_then_commit_persists_witness:
  "fst aborted_run = Exited 1 \<and>
   Rollback \<in> set (new_calls sample_world (snd aborted_run)) \<and>
   commit_follows (new_calls sample_world (snd aborted_run)) \<and>
   committed (snd aborted_run) =
     [(Temperature_readings,
       [(Timestamp 1, 7, [FInt 41, FFloat 21.5, FNone]),
        (Timestamp 2, 7, [FInt 41, FFloat 21.5, FNone])])]"
proof -
  have "main sample_lib
       (import_args [(''Sensor t1'', [t_row 1, t_row 2, t_row 3, bad_cast_row])] 2) 5 sample_world
        = (fst aborted_run, snd aborted_run)"
    by (simp add: aborted_run_def)
  from flush_then_commit_persists[OF this]
  have "commit_follows (new_calls sample_world (snd aborted_run))"
    and "committed (snd aborted_run) =
         committed sample_world @ batches (new_calls sample_world (snd aborted_run))"
    by simp_all
  moreover have "committed sample_world = []" by (simp add: sample_world_def)
  ultimately show ?thesis using aborted_run_calls by simp
qed

lemma connect_verify_close_all_present:
  assumes "reachable w" "\<forall>t. present w t" "connect_verify_close w = (r, w')"
  shows "r = Returned () \<and> calls w' = calls w @ Connect # count_queries @ [Close]"
  using assms
  by (auto simp: connect_verify_close_def connect_db_result verify_import_result
      count_queries_def print_def called_def)

text \<open>
  Claim C7. With \<^verbatim>\<open>--verify-only\<close> the script performs no import and writes nothing.
  The run is the sequence connect, verify, close alone, whatever the file, the batch size
  and the library are. Its database calls are the connect, then the four count queries
  in order (cut short at the first table that is not there), then the close if the
  verification returned; no bulk insert is among them, and the durable inserts at the end
  are those of the start. With the database reachable and the four tables there, the
  calls are exactly connect, the four count queries, close.
\<close>

theorem verify_only_writes_nothing:
  assumes "arg_verify_only a" "main lib a duration w = (r, w')"
  shows "main lib a duration w = connect_verify_close w \<and>
         committed w' = committed w \<and>
         calls w' = calls w @ new_calls w w' \<and>
         batches (new_calls w w') = [] \<and>
         (\<exists>k. new_calls w w' =
            (if reachable w
             then Connect # take k count_queries @ (if r = Returned () then [Close] else [])
             else [])) \<and>
         (reachable w \<and> (\<forall>t. present w t) \<longrightarrow>
            r = Returned () \<and> new_calls w w' = Connect # count_queries @ [Close])"
proof -
  from assms have m: "main lib a duration w = connect_verify_close w"
    and c: "connect_verify_close w = (r, w')" by (simp_all add: main_def)
  from connect_verify_close_run[OF c] obtain k where
    fc: "flushes_committed w w'" and co: "committed w' = committed w"
    and k: "new_calls w w' =
            (if reachable w
             then Connect # take k count_queries @ (if r = Returned () then [Close] else [])
             else [])" by blast
  from fc have cs: "calls w' = calls w @ new_calls w w'" by (simp add: flushes_committed_def)
  have b: "batches (new_calls w w') = []"
    by (simp add: k batches_append batches_take_count_queries)
  have "r = Returned () \<and> new_calls w w' = Connect # count_queries @ [Close]"
    if "reachable w" "\<forall>t. present w t"
    using connect_verify_close_all_present[OF that c] by (simp add: new_calls_def)
  with m co cs b k show ?thesis by blast
qed

theorem verify_only_writes_nothing_witness:
  "arg_verify_only verify_args \<and>
   main sample_lib verify_args 0 sample_world = connect_verify_close sample_world \<and>
   fst (main sample_lib verify_args 0 sample_world) = Returned () \<and>
   committed (snd (main sample_lib verify_args 0 sample_world)) = committed sample_world \<and>
   new_calls sample_world (snd (main sample_lib verify_args 0 sample_world)) =
     [Connect, Select_count Sensors, Select_count Current_readings,
      Select_count Environmental_readings, Select_count Temperature_readings, Close]"
proof -
  have v: "arg_verify_only verify_args" by (simp add: verify_args_def)
  have e: "main sample_lib verify_args 0 sample_world =
           (fst (main sample_lib verify_args 0 sample_world),
            snd (main sample_lib verify_args 0 sample_world))" by simp
  have s: "reachable sample_world \<and> (\<forall>t. present sample_world t)"
    by (simp add: sample_world_def)
  note t = verify_only_writes_nothing[OF v e]
  from t have 1: "main sample_lib verify_args 0 sample_world = connect_verify_close sample_world"
    by (rule conjunct1)
  from t have 2: "committed (snd (main sample_lib verify_args 0 sample_world)) =
      committed sample_world" by blast
  from t s have 3: "fst (main sample_lib verify_args 0 sample_world) = Returned ()"
    and 4: "new_calls sample_world (snd (main sample_lib verify_args 0 sample_world)) =
      Connect # count_queries @ [Close]" by blast+
  from v 1 2 3 4 show ?thesis by (simp only: count_queries_def append_Cons append_Nil simp_thms)
qed

text \<open>
  The connection of \<open>import_all_data\<close>: once opened it is closed on every path, after a
  rollback when the import failed, and the function leaves as many connections open as
  it found.
\<close>

lemma import_all_data_connected:
  assumes "import_all_data lib (Workbook sheets) b duration w = (r, w')" "reachable w"
  shows "\<exists>cs. new_calls w w' = Connect # cs @ (if r = Returned () then [Close] else [Rollback, Close])"
    and "r = Returned () \<or> r = Exited 1"
proof -
  let ?w0 = "print (Found_sheets (length sheets)) (print Reading_file w)"
  obtain bb w1 where c: "connect_db ?w0 = (bb, w1)" by (cases "connect_db ?w0")
  with assms(2) have bb: "bb" and w1: "calls w1 = calls w @ [Connect]" "uncommitted w1 = []"
    by (auto simp: connect_db_result split: if_splits)
  obtain r2 w2 where t: "and_then (sheets_loop lib b sheets 0 w1) (print_summary duration) = (r2, w2)"
    by (cases "and_then (sheets_loop lib b sheets 0 w1) (print_summary duration)")
  have "proceeds w1 w2" using w1(2) t by (rule try_body_proceeds)
  then obtain cs where cs: "calls w2 = calls w1 @ cs"
    by (auto simp: proceeds_def elim: flushes_committedE)
  have "(\<exists>cs. new_calls w w' = Connect # cs @ (if r = Returned () then [Close] else [Rollback, Close])) \<and>
        (r = Returned () \<or> r = Exited 1)"
  proof (cases r2)
    case (Inl e)
    with assms(1) c bb t have "w' = close (rollback (print (Import_failed e) w2))" "r = Exited 1"
      by (simp_all add: import_all_data_def)
    with cs w1 show ?thesis by (simp add: new_calls_def)
  next
    case (Inr u)
    with assms(1) c bb t have "w' = close w2" "r = Returned ()"
      by (simp_all add: import_all_data_def)
    with cs w1 show ?thesis by (simp add: new_calls_def)
  qed
  then show "\<exists>cs. new_calls w w' = Connect # cs @ (if r = Returned () then [Close] else [Rollback, Close])"
    and "r = Returned () \<or> r = Exited 1" by blast+
qed

lemma import_all_data_closes:
  assumes "import_all_data lib f b duration w = (r, w')"
  shows "open_connections w' = open_connections w"
  using assms by (rule import_all_data_run)

text \<open>
  Claim C8. On every execution path the connection is opened once at the start and closed
  in a guaranteed-cleanup block before the process ends, in the import path and in the
  verify-only path. The import function does close its connection on every path (the two
  facts above). The main block does not: its close is a plain statement after the
  verification, in both branches. On a database where a counted table is missing, the
  second count query raises, the exception leaves the script, and the connection opened
  at the start is never closed.
\<close>

theorem verify_only_leaves_connection_open:
  "fst (main sample_lib verify_args 0 unprovisioned_world) =
     Raised (Undefined_table Current_readings) \<and>
   new_calls unprovisioned_world (snd (main sample_lib verify_args 0 unprovisioned_world)) =
     [Connect, Select_count Sensors] \<and>
   open_connections unprovisioned_world = 0 \<and>
   open_connections (snd (main sample_lib verify_args 0 unprovisioned_world)) = 1"
  by (simp add: run_defs)

text \<open>
  The same happens to the second connection, the one the main block opens for the
  verification after an import that succeeded.
\<close>

lemma import_then_verify_leaves_connection_open:
  "fst (main sample_lib (import_args [(''Sensor unknown9'', [t_row 1])] 1000) 5 unprovisioned_world) =
     Raised (Undefined_table Current_readings) \<and>
   new_calls unprovisioned_world
     (snd (main sample_lib (import_args [(''Sensor unknown9'', [t_row 1])] 1000) 5
        unprovisioned_world)) =
     [Connect, Close, Connect, Select_count Sensors] \<and>
   open_connections
     (snd (main sample_lib (import_args [(''Sensor unknown9'', [t_row 1])] 1000) 5
        unprovisioned_world)) = 1"
  by (simp add: run_defs)

lemma SENSOR_MAPPING_dom:
  "dom SENSOR_MAPPING =
     {''Sensor c1'', ''Sensor s1'', ''Sensor s2'', ''Sensor s3'', ''Sensor s4'', ''Sensor s5'',
      ''Sensor t1'', ''Sensor t2'', ''Sensor t3'', ''Sensor t4'', ''Sensor t5''}"
  by (auto simp: SENSOR_MAPPING_def dom_def split: if_splits)

lemma import_for_eq: "import_for ty = import_sensor (cols_for ty) (table_for ty)"
  by (cases ty)
     (simp_all add: import_current_sensor_def import_environmental_sensor_def
        import_temperature_sensor_def)

lemma import_sheet_known:
  "SENSOR_MAPPING name = Some (code, ty) \<Longrightarrow>
   import_sheet lib b (name, df) tot w =
     (case import_for ty lib name df code b w of
        (Inl e, w1) \<Rightarrow> (Inl e, w1)
      | (Inr u, w1) \<Rightarrow> (Inr (tot + length df), w1))"
  by (cases ty) (simp_all add: import_sheet_def and_then_def)

lemma import_sheet_unknown:
  "SENSOR_MAPPING name = None \<Longrightarrow>
   import_sheet lib b (name, df) tot w = (Inr tot, print (Skipping_unknown_sheet name) w)"
  by (simp add: import_sheet_def)

text \<open>
  Claim C4. For a sheet whose name is one of the 11 recognized names, the import function
  run is the one of the sensor type registered for that name, with the registered sensor
  code: \<open>import_current_sensor\<close> for c1, \<open>import_environmental_sensor\<close> for s1 to s5,
  \<open>import_temperature_sensor\<close> for t1 to t5, each with its own tuple and table. A sheet
  with any other name is skipped with the warning: the loop goes on to the next sheet in
  a world that differs by the printed line only, the row total is unchanged, and nothing
  is raised.
\<close>

theorem sheet_dispatch:
  "(SENSOR_MAPPING name = Some (code, ty) \<longrightarrow>
      import_sheet lib b (name, df) tot w =
        (case import_for ty lib name df code b w of
           (Inl e, w1) \<Rightarrow> (Inl e, w1)
         | (Inr u, w1) \<Rightarrow> (Inr (tot + length df), w1))) \<and>
   (SENSOR_MAPPING name = None \<longrightarrow>
      import_sheet lib b (name, df) tot w = (Inr tot, print (Skipping_unknown_sheet name) w) \<and>
      sheets_loop lib b ((name, df) # sheets) tot w =
        sheets_loop lib b sheets tot (print (Skipping_unknown_sheet name) w)) \<and>
   dom SENSOR_MAPPING =
     {''Sensor c1'', ''Sensor s1'', ''Sensor s2'', ''Sensor s3'', ''Sensor s4'', ''Sensor s5'',
      ''Sensor t1'', ''Sensor t2'', ''Sensor t3'', ''Sensor t4'', ''Sensor t5''} \<and>
   SENSOR_MAPPING ''Sensor c1'' = Some (''c1'', Current) \<and>
   (\<forall>n \<in> {''1'', ''2'', ''3'', ''4'', ''5''}.
      SENSOR_MAPPING (''Sensor s'' @ n) = Some (''s'' @ n, Environmental) \<and>
      SENSOR_MAPPING (''Sensor t'' @ n) = Some (''t'' @ n, Temperature)) \<and>
   import_for Current = import_sensor current_fields Current_readings \<and>
   import_for Environmental = import_sensor environmental_fields Environmental_readings \<and>
   import_for Temperature = import_sensor temperature_fields Temperature_readings"
  by (simp add: import_sheet_known import_sheet_unknown SENSOR_MAPPING_dom and_then_def
        import_for_eq)
     (simp add: SENSOR_MAPPING_def)

theorem sheet_dispatch_witness:
  "SENSOR_MAPPING ''Sensor t1'' = Some (''t1'', Temperature) \<and>
   import_sheet sample_lib 1000 (''Sensor t1'', [t_row 1]) 0 sample_world =
     (case import_temperature_sensor sample_lib ''Sensor t1'' [t_row 1] ''t1'' 1000 sample_world of
        (Inl e, w1) \<Rightarrow> (Inl e, w1)
      | (Inr u, w1) \<Rightarrow> (Inr 1, w1)) \<and>
   SENSOR_MAPPING ''Sensor unknown9'' = None \<and>
   import_sheet sample_lib 1000 (''Sensor unknown9'', [t_row 1]) 0 sample_world =
     (Inr 0, print (Skipping_unknown_sheet ''Sensor unknown9'') sample_world) \<and>
   sheets_loop sample_lib 1000 [(''Sensor unknown9'', [t_row 1])] 0 sample_world =
     (Inr 0, print (Skipping_unknown_sheet ''Sensor unknown9'') sample_world)"
proof -
  have t1: "SENSOR_MAPPING ''Sensor t1'' = Some (''t1'', Temperature)"
    and u9: "SENSOR_MAPPING ''Sensor unknown9'' = None"
    by (simp_all add: SENSOR_MAPPING_def)
  have a: "import_sheet sample_lib 1000 (''Sensor t1'', [t_row 1]) 0 sample_world =
     (case import_for Temperature sample_lib ''Sensor t1'' [t_row 1] ''t1'' 1000 sample_world of
        (Inl e, w1) \<Rightarrow> (Inl e, w1)
      | (Inr u, w1) \<Rightarrow> (Inr (0 + length [t_row 1]), w1))"
    using t1 sheet_dispatch[of "''Sensor t1''" "''t1''" Temperature sample_lib 1000 "[t_row 1]" 0
      sample_world "[]"] by blast
  have b: "import_sheet sample_lib 1000 (''Sensor unknown9'', [t_row 1]) 0 sample_world =
      (Inr 0, print (Skipping_unknown_sheet ''Sensor unknown9'') sample_world) \<and>
    sheets_loop sample_lib 1000 ((''Sensor unknown9'', [t_row 1]) # []) 0 sample_world =
      sheets_loop sample_lib 1000 [] 0 (print (Skipping_unknown_sheet ''Sensor unknown9'') sample_world)"
    using u9 sheet_dispatch[of "''Sensor unknown9''" "''t1''" Temperature sample_lib 1000
      "[t_row 1]" 0 sample_world "[]"] by blast
  from conjunct2[OF b] have c: "sheets_loop sample_lib 1000 [(''Sensor unknown9'', [t_row 1])] 0 sample_world =
     (Inr 0, print (Skipping_unknown_sheet ''Sensor unknown9'') sample_world)"
    by simp
  from a have a': "import_sheet sample_lib 1000 (''Sensor t1'', [t_row 1]) 0 sample_world =
     (case import_temperature_sensor sample_lib ''Sensor t1'' [t_row 1] ''t1'' 1000 sample_world of
        (Inl e, w1) \<Rightarrow> (Inl e, w1)
      | (Inr u, w1) \<Rightarrow> (Inr 1, w1))" by (simp split: prod.split sum.split)
  from t1 u9 a' b c show ?thesis by blast
qed

subsection \<open>A failing sheet ends the run\<close>

lemma sheets_loop_fails:
  assumes "sheet \<in> set sheets"
    and "\<And>w1 tot1. same_setup w w1 \<Longrightarrow> \<exists>e w2. import_sheet lib b sheet tot1 w1 = (Inl e, w2)"
  shows "uncommitted w0 = [] \<Longrightarrow> same_setup w w0 \<Longrightarrow>
    \<exists>e w'. sheets_loop lib b sheets tot w0 = (Inl e, w')"
  using assms(1)
proof (induction sheets arbitrary: tot w0)
  case Nil
  then show ?case by simp
next
  case (Cons s sheets)
  obtain r1 w1 where i: "import_sheet lib b s tot w0 = (r1, w1)"
    by (cases "import_sheet lib b s tot w0")
  have p: "proceeds w0 w1" using Cons.prems(1) i by (rule import_sheet_proceeds)
  show ?case
  proof (cases r1)
    case (Inl e)
    with i show ?thesis by (simp add: and_then_def)
  next
    case (Inr tot1)
    have "s \<noteq> sheet"
    proof
      assume "s = sheet"
      with assms(2)[OF Cons.prems(2), of tot] i Inr show False by simp
    qed
    with Cons.prems(3) have mem: "sheet \<in> set sheets" by simp
    from p Cons.prems(2) have ss: "same_setup w w1"
      by (auto simp: proceeds_def intro: same_setup_trans)
    from Cons.IH[OF proceeds_uncommitted[OF p] ss mem, of tot1] i Inr
    show ?thesis by (simp add: and_then_def)
  qed
qed

lemma import_all_data_fails:
  assumes "sheet \<in> set sheets"
    and "\<And>w1 tot1. same_setup w w1 \<Longrightarrow> \<exists>e w2. import_sheet lib b sheet tot1 w1 = (Inl e, w2)"
    and "import_all_data lib (Workbook sheets) b duration w = (r, w')"
  shows "r = Exited 1"
    and "reachable w \<Longrightarrow> \<exists>cs. new_calls w w' = Connect # cs @ [Rollback, Close]"
proof -
  let ?w0 = "print (Found_sheets (length sheets)) (print Reading_file w)"
  obtain bb w1 where c: "connect_db ?w0 = (bb, w1)" by (cases "connect_db ?w0")
  show r: "r = Exited 1"
  proof (cases bb)
    case False
    with assms(3) c show ?thesis by (simp add: import_all_data_def)
  next
    case True
    with c have u: "uncommitted w1 = []" using connect_db_True[of ?w0 w1] by simp
    from connect_db_flushes_committed[OF c] have "same_setup ?w0 w1" by simp
    then have ss: "same_setup w w1" by (simp add: same_setup_def)
    from sheets_loop_fails[OF assms(1) assms(2) u ss, where tot = 0] obtain e w2
      where "sheets_loop lib b sheets 0 w1 = (Inl e, w2)" by blast
    with assms(3) c True show ?thesis by (simp add: import_all_data_def and_then_def)
  qed
  show "\<exists>cs. new_calls w w' = Connect # cs @ [Rollback, Close]" if "reachable w"
    using import_all_data_connected(1)[OF assms(3) that] r by simp
qed

lemma main_import_fails:
  assumes "sheet \<in> set sheets"
    and "\<And>w1 tot1. same_setup w w1 \<Longrightarrow> \<exists>e w2. import_sheet lib b sheet tot1 w1 = (Inl e, w2)"
    and "main lib (import_args sheets b) duration w = (r, w')"
  shows "r = Exited 1"
    and "reachable w \<Longrightarrow> \<exists>cs. new_calls w w' = Connect # cs @ [Rollback, Close]"
    and "open_connections w' = open_connections w"
proof -
  obtain r1 w1 where i: "import_all_data lib (Workbook sheets) b duration w = (r1, w1)"
    by (cases "import_all_data lib (Workbook sheets) b duration w")
  from import_all_data_fails(1)[OF assms(1,2) i] have r1: "r1 = Exited 1" .
  with assms(3) i have e: "r = Exited 1" "w' = w1" by (simp_all add: main_def import_args_def)
  then show "r = Exited 1" by simp
  show "\<exists>cs. new_calls w w' = Connect # cs @ [Rollback, Close]" if "reachable w"
    using import_all_data_fails(2)[OF assms(1,2) i that] e by simp
  show "open_connections w' = open_connections w"
    using import_all_data_closes[OF i] e by simp
qed

lemma get_sensor_id_missing:
  "map_of (registry w) code = None \<Longrightarrow>
   get_sensor_id code w =
     (if present w Sensors then (Inl (Sensor_not_found code), called (Select_sensor_id code) w)
      else (Inl (Undefined_table Sensors), w))"
  by (simp add: get_sensor_id_def Let_def)

lemma import_sheet_missing_sensor:
  assumes "SENSOR_MAPPING name = Some (code, ty)" "map_of (registry w) code = None"
  shows "import_sheet lib b (name, df) tot w =
     (if present w Sensors then (Inl (Sensor_not_found code), called (Select_sensor_id code) w)
      else (Inl (Undefined_table Sensors), w))"
  using assms
  by (simp add: import_sheet_known import_for_eq import_sensor_def and_then_def
      get_sensor_id_missing)

lemma main_unreachable:
  "\<not> reachable w \<Longrightarrow> exit_status (fst (main lib a duration w)) = 1"
  by (cases "arg_excel_file a")
     (simp_all add: main_def import_all_data_def connect_verify_close_def connect_db_result)

lemma main_missing_file:
  "\<not> arg_verify_only a \<Longrightarrow> arg_excel_file a = Missing \<Longrightarrow>
   main lib a duration w = (Exited 1, print File_not_found w)"
  by (simp add: main_def import_all_data_def)

text \<open>
  Claim C6. For a recognized sheet whose sensor code has no row in the registry, the
  lookup raises (the \<^verbatim>\<open>ValueError\<close> of \<open>get_sensor_id\<close>, after its query), nothing handles
  it before the driver, and the loop over the sheets ends there: the sheets after it are
  not processed. Whatever the other sheets are, the run then ends in \<^verbatim>\<open>sys.exit(1)\<close>
  with the connection closed, and when the database was reachable the last two calls are
  the rollback and the close. A missing input file ends the run with status 1 before any
  connection, and so does a database connection that fails.
\<close>

theorem unknown_sensor_aborts_run:
  "(map_of (registry w) code = None \<and> present w Sensors \<longrightarrow>
      get_sensor_id code w = (Inl (Sensor_not_found code), called (Select_sensor_id code) w) \<and>
      (SENSOR_MAPPING name = Some (code, ty) \<longrightarrow>
         sheets_loop lib b ((name, df) # rest) tot w =
           (Inl (Sensor_not_found code), called (Select_sensor_id code) w))) \<and>
   ((name, df) \<in> set sheets \<and> SENSOR_MAPPING name = Some (code, ty) \<and>
    map_of (registry w) code = None \<and>
    main lib (import_args sheets b) duration w = (r, w') \<longrightarrow>
      r = Exited 1 \<and> exit_status r = 1 \<and> open_connections w' = open_connections w \<and>
      (reachable w \<longrightarrow> (\<exists>cs. new_calls w w' = Connect # cs @ [Rollback, Close]))) \<and>
   (\<not> arg_verify_only a \<and> arg_excel_file a = Missing \<longrightarrow>
      main lib a duration w = (Exited 1, print File_not_found w)) \<and>
   (\<not> reachable w \<longrightarrow> exit_status (fst (main lib a duration w)) = 1)"
proof -
  have 1: "get_sensor_id code w = (Inl (Sensor_not_found code), called (Select_sensor_id code) w)"
    if "map_of (registry w) code = None" "present w Sensors"
    using that by (simp add: get_sensor_id_missing)
  have 2: "sheets_loop lib b ((name, df) # rest) tot w =
           (Inl (Sensor_not_found code), called (Select_sensor_id code) w)"
    if "map_of (registry w) code = None" "present w Sensors" "SENSOR_MAPPING name = Some (code, ty)"
    using that by (simp add: import_sheet_missing_sensor and_then_def)
  have 3: "r = Exited 1 \<and> exit_status r = 1 \<and> open_connections w' = open_connections w \<and>
      (reachable w \<longrightarrow> (\<exists>cs. new_calls w w' = Connect # cs @ [Rollback, Close]))"
    if m: "(name, df) \<in> set sheets" and k: "SENSOR_MAPPING name = Some (code, ty)"
      and n: "map_of (registry w) code = None"
      and run: "main lib (import_args sheets b) duration w = (r, w')"
  proof -
    have f: "\<exists>e w2. import_sheet lib b (name, df) tot1 w1 = (Inl e, w2)" if "same_setup w w1"
      for w1 tot1
    proof -
      from that n have "map_of (registry w1) code = None" by (simp add: same_setup_def)
      with k show ?thesis by (simp add: import_sheet_missing_sensor)
    qed
    from main_import_fails[OF m f run] show ?thesis by simp
  qed
  from 1 2 3 main_missing_file[of a lib duration w] main_unreachable[of w lib a duration]
  show ?thesis by blast
qed

theorem unknown_sensor_aborts_run_witness:
  "map_of (registry sample_world) ''t2'' = None \<and> present sample_world Sensors \<and>
   SENSOR_MAPPING ''Sensor t2'' = Some (''t2'', Temperature) \<and>
   get_sensor_id ''t2'' sample_world =
     (Inl (Sensor_not_found ''t2''), called (Select_sensor_id ''t2'') sample_world) \<and>
   fst unregistered_run = Exited 1 \<and>
   new_calls sample_world (snd unregistered_run) =
     [Connect, Select_sensor_id ''t1'',
      Execute_batch Temperature_readings [(Timestamp 1, 7, [FInt 41, FFloat 21.5, FNone])],
      Commit, Select_sensor_id ''t2'', Rollback, Close] \<and>
   main sample_lib (import_args [] 1000\<lparr>arg_excel_file := Missing\<rparr>) 5 sample_world =
     (Exited 1, print File_not_found sample_world) \<and>
   \<not> reachable offline_world \<and>
   exit_status (fst (main sample_lib (import_args unregistered_sheets 1000) 5 offline_world)) = 1"
proof -
  have h: "map_of (registry sample_world) ''t2'' = None" "present sample_world Sensors"
    "SENSOR_MAPPING ''Sensor t2'' = Some (''t2'', Temperature)"
    "(''Sensor t2'', [t_row 2]) \<in> set unregistered_sheets"
    "\<not> arg_verify_only (import_args [] 1000\<lparr>arg_excel_file := Missing\<rparr>)"
    "arg_excel_file (import_args [] 1000\<lparr>arg_excel_file := Missing\<rparr>) = Missing"
    "\<not> reachable offline_world"
    by (simp_all add: sample_world_def SENSOR_MAPPING_def unregistered_sheets_def import_args_def
        offline_world_def)
  have e: "main sample_lib (import_args unregistered_sheets 1000) 5 sample_world =
      (fst unregistered_run, snd unregistered_run)" by (simp add: unregistered_run_def)
  note t = unknown_sensor_aborts_run[of sample_world "''t2''" "''Sensor t2''" Temperature
      sample_lib 1000 "[t_row 2]" "[]" 0 unregistered_sheets 5 "fst unregistered_run"
      "snd unregistered_run" "import_args [] 1000\<lparr>arg_excel_file := Missing\<rparr>"]
  note t' = unknown_sensor_aborts_run[of offline_world "''t2''" "''Sensor t2''" Temperature
      sample_lib 1000 "[t_row 2]" "[]" 0 unregistered_sheets 5 "fst unregistered_run"
      "snd unregistered_run" "import_args unregistered_sheets 1000"]
  from t h have 1: "get_sensor_id ''t2'' sample_world =
     (Inl (Sensor_not_found ''t2''), called (Select_sensor_id ''t2'') sample_world)" by blast
  from t h e have 2: "fst unregistered_run = Exited 1" by blast
  from t h have 3: "main sample_lib (import_args [] 1000\<lparr>arg_excel_file := Missing\<rparr>) 5
      sample_world = (Exited 1, print File_not_found sample_world)" by blast
  from t' h have 4: "exit_status (fst (main sample_lib (import_args unregistered_sheets 1000) 5
      offline_world)) = 1" by blast
  have 5: "new_calls sample_world (snd unregistered_run) =
     [Connect, Select_sensor_id ''t1'',
      Execute_batch Temperature_readings [(Timestamp 1, 7, [FInt 41, FFloat 21.5, FNone])],
      Commit, Select_sensor_id ''t2'', Rollback, Close]"
    unfolding unregistered_run_def by (simp add: run_defs)
  from h 1 2 3 4 5 show ?thesis by blast
qed

subsection \<open>Casting the cells\<close>










subsection \<open>The buffer and the batches\<close>

lemma flush_sizes_inserts: "flush_sizes (inserts t ds) = map length ds"
  by (simp add: flush_sizes_def batches_inserts comp_def)

lemma rows_loop_inv:
  assumes "0 < b"
  shows "int (length data) < b \<Longrightarrow>
     rows_loop lib cols t sid b n rows idx data sk w = (r, w') \<Longrightarrow>
     (\<exists>ds. calls w' = calls w @ inserts t ds \<and> (\<forall>d\<in>set ds. int (length d) = b)) \<and>
     (\<forall>d s. r = Inr (d, s) \<longrightarrow> int (length d) < b)"
proof (induction rows arbitrary: idx data sk w)
  case Nil
  then show ?case by (auto simp: inserts_def intro!: exI[of _ "[]"])
next
  case (Cons row rows)
  show ?case
  proof (cases rule: rows_loop_step[of row lib cols t sid b n rows idx data sk w])
    case no_date
    with Cons.prems show ?thesis by (auto simp: inserts_def intro!: exI[of _ "[]"])
  next
    case (skipped c)
    with Cons.prems Cons.IH[of data "Suc idx" "Suc sk" "print (Could_not_parse_timestamp c) w"]
    show ?thesis by simp
  next
    case (bad_cell c ts e)
    with Cons.prems show ?thesis by (auto simp: inserts_def intro!: exI[of _ "[]"])
  next
    case (buffered c ts ms)
    with Cons.prems Cons.IH[of "data @ [(ts, sid, ms)]" "Suc idx" sk w]
    show ?thesis by simp
  next
    case (flush_failed c ts ms e)
    with Cons.prems show ?thesis by (auto simp: inserts_def intro!: exI[of _ "[]"])
  next
    case (flushed c ts ms)
    let ?d1 = "data @ [(ts, sid, ms)]"
    let ?w1 = "print (Inserted (Suc (length data)) (Suc idx) n) (flushed t ?d1 w)"
    from flushed(7) Cons.prems(2)
    have eq: "rows_loop lib cols t sid b n rows (Suc idx) [] sk ?w1 = (r, w')" by simp
    from Cons.IH[OF _ eq] assms obtain ds where
      ds: "calls w' = calls ?w1 @ inserts t ds" "\<forall>d\<in>set ds. int (length d) = b"
      and r: "\<forall>d s. r = Inr (d, s) \<longrightarrow> int (length d) < b" by auto
    from flushed(4) Cons.prems(1) have len: "int (length ?d1) = b" by simp
    have "calls w' = calls w @ inserts t (?d1 # ds)" using ds(1) by (simp add: inserts_def)
    moreover have "\<forall>d\<in>set (?d1 # ds). int (length d) = b" using ds(2) len by simp
    ultimately show ?thesis using r by blast
  qed
qed

lemma map_length_const:
  "\<forall>d\<in>set ds. int (length d) = b \<Longrightarrow> map length ds = replicate (length ds) (nat b)"
  by (induction ds) auto

lemma new_calls_append: "calls w' = calls w @ cs \<Longrightarrow> new_calls w w' = cs"
  by (simp add: new_calls_def)

lemma import_sensor_flush_sizes:
  assumes "0 < b" "import_sensor cols t lib name df code b w = (r, w')"
  shows "\<exists>m rest. flush_sizes (new_calls w w') = replicate m (nat b) @ rest \<and>
           (rest = [] \<or> (\<exists>k. rest = [k] \<and> 0 < k \<and> int k < b))"
proof -
  obtain r1 w1 where g: "get_sensor_id code w = (r1, w1)" by (cases "get_sensor_id code w")
  then obtain c0 where c0: "calls w1 = calls w @ c0" "flush_sizes c0 = []"
    by (auto simp: get_sensor_id_def Let_def flush_sizes_def split: if_splits option.splits)
  show ?thesis
  proof (cases r1)
    case (Inl e)
    with assms(2) g have "w' = w1" by (simp add: import_sensor_def and_then_def)
    with c0 show ?thesis
      by (intro exI[of _ 0] exI[of _ "[]"]) (simp add: new_calls_append)
  next
    case (Inr sid)
    let ?w2 = "print (Importing name code (length df)) w1"
    obtain r3 w3 where l: "rows_loop lib cols t sid b (length df) df 0 [] 0 ?w2 = (r3, w3)"
      by (cases "rows_loop lib cols t sid b (length df) df 0 [] 0 ?w2")
    from rows_loop_inv[OF assms(1) _ l] assms(1) obtain ds where
      ds: "calls w3 = calls w1 @ inserts t ds" "\<forall>d\<in>set ds. int (length d) = b"
      and r3: "\<forall>d s. r3 = Inr (d, s) \<longrightarrow> int (length d) < b" by auto
    have base: "flush_sizes (c0 @ inserts t ds) = replicate (length ds) (nat b)"
      using c0(2) ds(2) by (simp add: flush_sizes_append flush_sizes_inserts map_length_const)
    show ?thesis
    proof (cases r3)
      case (Inl e)
      with assms(2) g Inr l have "w' = w3" by (simp add: import_sensor_def and_then_def)
      with c0 ds base have "flush_sizes (new_calls w w') = replicate (length ds) (nat b) @ []"
        by (simp add: new_calls_append)
      then show ?thesis by blast
    next
      case res: (Inr p)
      obtain d s where p: "p = (d, s)" by (cases p)
      with res r3 have dlen: "int (length d) < b" by simp
      from assms(2) g Inr l res p have f: "finish_sheet t name b (d, s) w3 = (r, w')"
        by (simp add: import_sensor_def and_then_def)
      show ?thesis
      proof (cases "d = [] \<or> \<not> present w3 t")
        case True
        with f assms(1) have "calls w' = calls w3"
          by (auto simp: finish_sheet_def and_then_def flush_result split: if_splits)
        with c0 ds base have "flush_sizes (new_calls w w') = replicate (length ds) (nat b) @ []"
          by (simp add: new_calls_append)
        then show ?thesis by blast
      next
        case False
        with f assms(1) have "calls w' = calls w3 @ [Execute_batch t d, Commit]"
          by (auto simp: finish_sheet_def and_then_def flush_result split: if_splits)
        with c0 ds have "new_calls w w' = (c0 @ inserts t ds) @ [Execute_batch t d, Commit]"
          by (simp add: new_calls_append)
        then have "flush_sizes (new_calls w w') = replicate (length ds) (nat b) @ [length d]"
          using base by (simp only: flush_sizes_append) (simp add: flush_sizes_def)
        with False dlen show ?thesis by blast
      qed
    qed
  qed
qed

text \<open>
  Claim C9. With a batch size of at least 1, the buffer of a sheet import holds fewer
  rows than the batch size after each row: the loop run over any first rows of the sheet,
  from the empty buffer, ends with a buffer below the batch size if it ends normally, and
  every bulk insert it made has exactly the batch size. For the import function as a
  whole, whatever its outcome: the bulk inserts have exactly the batch size, except
  possibly the last one, the one made after the loop, which has at least one row and
  fewer rows than the batch size.
\<close>

theorem buffer_stays_below_batch_size:
  assumes "0 < b"
  shows "(rows_loop lib cols t sid b n (take j df) 0 [] 0 w = (r, w') \<longrightarrow>
            (\<forall>d s. r = Inr (d, s) \<longrightarrow> int (length d) < b) \<and>
            (\<forall>x\<in>set (flush_sizes (new_calls w w')). int x = b)) \<and>
         (import_for ty lib name df code b w2 = (r2, w2') \<longrightarrow>
            (\<exists>m rest. flush_sizes (new_calls w2 w2') = replicate m (nat b) @ rest \<and>
               (rest = [] \<or> (\<exists>k. rest = [k] \<and> 0 < k \<and> int k < b))))"
proof -
  have 1: "(\<forall>d s. r = Inr (d, s) \<longrightarrow> int (length d) < b) \<and>
            (\<forall>x\<in>set (flush_sizes (new_calls w w')). int x = b)"
    if l: "rows_loop lib cols t sid b n (take j df) 0 [] 0 w = (r, w')"
  proof -
    from rows_loop_inv[OF assms _ l] assms obtain ds where
      ds: "calls w' = calls w @ inserts t ds" "\<forall>d\<in>set ds. int (length d) = b"
      and r: "\<forall>d s. r = Inr (d, s) \<longrightarrow> int (length d) < b" by auto
    from ds have "flush_sizes (new_calls w w') = map length ds"
      by (simp add: new_calls_append flush_sizes_inserts)
    with ds(2) r show ?thesis by auto
  qed
  have 2: "\<exists>m rest. flush_sizes (new_calls w2 w2') = replicate m (nat b) @ rest \<and>
               (rest = [] \<or> (\<exists>k. rest = [k] \<and> 0 < k \<and> int k < b))"
    if "import_for ty lib name df code b w2 = (r2, w2')"
    using import_sensor_flush_sizes[OF assms that[unfolded import_for_eq]] .
  from 1 2 show ?thesis by blast
qed

theorem buffer_stays_below_batch_size_witness:
  "(0::int) < 2 \<and>
   fst (rows_loop sample_lib temperature_fields Temperature_readings 7 2 4 (take 4 sample_sheet)
          0 [] 0 sample_world) =
     Inr ([(Timestamp 3, 7, [FInt 41, FFloat 21.5, FNone])], 1) \<and>
   list_all (\<lambda>x. int x = 2) (flush_sizes (new_calls sample_world
        (snd (rows_loop sample_lib temperature_fields Temperature_readings 7 2 4
               (take 4 sample_sheet) 0 [] 0 sample_world)))) \<and>
   flush_sizes (new_calls sample_world
     (snd (import_for Temperature sample_lib ''Sensor t1'' sample_sheet ''t1'' 2 sample_world))) =
     [2, 1] \<and>
   (\<exists>m rest. flush_sizes (new_calls sample_world
        (snd (import_for Temperature sample_lib ''Sensor t1'' sample_sheet ''t1'' 2 sample_world))) =
      replicate m (nat 2) @ rest \<and> (rest = [] \<or> (\<exists>k. rest = [k] \<and> 0 < k \<and> int k < 2)))"
proof -
  let ?l = "rows_loop sample_lib temperature_fields Temperature_readings 7 2 4 (take 4 sample_sheet)
          0 [] 0 sample_world"
  let ?i = "import_for Temperature sample_lib ''Sensor t1'' sample_sheet ''t1'' 2 sample_world"
  have b: "(0::int) < 2" by simp
  note t = buffer_stays_below_batch_size[OF b, of sample_lib temperature_fields
      Temperature_readings 7 4 4 sample_sheet sample_world "fst ?l" "snd ?l" Temperature
      "''Sensor t1''" "''t1''" sample_world "fst ?i" "snd ?i"]
  have e1: "?l = (fst ?l, snd ?l)" and e2: "?i = (fst ?i, snd ?i)" by simp_all
  from t e1 have "\<forall>x\<in>set (flush_sizes (new_calls sample_world (snd ?l))). int x = 2"
    by blast
  then have 1: "list_all (\<lambda>x. int x = 2) (flush_sizes (new_calls sample_world (snd ?l)))"
    by (simp only: list_all_iff)
  from t e2 have 2: "\<exists>m rest. flush_sizes (new_calls sample_world (snd ?i)) =
      replicate m (nat 2) @ rest \<and> (rest = [] \<or> (\<exists>k. rest = [k] \<and> 0 < k \<and> int k < 2))"
    by blast
  have 3: "fst ?l = Inr ([(Timestamp 3, 7, [FInt 41, FFloat 21.5, FNone])], 1)"
    by (simp add: run_defs)
  have 4: "flush_sizes (new_calls sample_world (snd ?i)) = [2, 1]"
    by (simp add: run_defs flush_sizes_def)
  from b 1 2 3 4 show ?thesis by blast
qed

subsection \<open>A sheet without failing rows\<close>






subsection \<open>Rows that are skipped\<close>





subsection \<open>Rows with an empty timestamp cell\<close>






end
